theory Spec2Isabelle
  imports Main
begin

section \<open>Outcomes of Go calls\<close>

text \<open>
  A Go call of the package either returns a value, returns a non-nil \<open>error\<close>, or
  panics at run time (an index out of range, a slice bound out of range, a nil pointer
  dereference). An \<open>error\<close> is modelled by its message, a string.
\<close>

datatype panic =
    IndexOutOfRange nat nat
  | SliceBoundsOutOfRange
  | NilPointerDereference

datatype 'a outcome = Ok 'a | Err string | Panic panic

section \<open>Dynamically typed template values\<close>

text \<open>
  The template functions take \<open>interface{}\<close> values. \<open>VSlice xs spare\<close> is a
  \<open>[]interface{}\<close> whose visible elements are \<open>xs\<close> (its length is \<open>length xs\<close>)
  and whose backing array goes on with \<open>spare\<close> (its capacity is
  \<open>length xs + length spare\<close>). \<open>VOther s\<close> is a value of any other dynamic type,
  given by its \<open>%v\<close> rendering. A Go \<open>int\<close> is 64 bits wide; the only arithmetic
  done on it below adds a length to a negative number, which cannot overflow.
\<close>

datatype val =
    VNil
  | VString string
  | VInt int
  | VBool bool
  | VSlice "val list" "val list"
  | VOther string

fun digits :: "nat \<Rightarrow> string" where
  "digits n = (if n < 10 then [''0123456789'' ! n]
               else digits (n div 10) @ [''0123456789'' ! (n mod 10)])"

definition Itoa :: "int \<Rightarrow> string" where
  "Itoa i = (if i < 0 then CHR ''-'' # digits (nat (- i)) else digits (nat i))"

fun Join :: "string list \<Rightarrow> string \<Rightarrow> string" where
  "Join [] sep = []"
| "Join [x] sep = x"
| "Join (x # y # ys) sep = x @ sep @ Join (y # ys) sep"

text \<open>\<open>fmt.Sprintf("%v", v)\<close>.\<close>

fun Sprintf_v :: "val \<Rightarrow> string" where
  "Sprintf_v VNil = ''<nil>''"
| "Sprintf_v (VString s) = s"
| "Sprintf_v (VInt i) = Itoa i"
| "Sprintf_v (VBool b) = (if b then ''true'' else ''false'')"
| "Sprintf_v (VSlice xs spare) = ''['' @ Join (map Sprintf_v xs) '' '' @ '']''"
| "Sprintf_v (VOther s) = s"

text \<open>
  \<open>strings.Split(s, sep)\<close> for a separator of one byte: the pieces between the
  occurrences of the separator, always at least one piece.
\<close>

fun Split :: "string \<Rightarrow> char \<Rightarrow> string list" where
  "Split [] c = [[]]"
| "Split (x # xs) c =
     (if x = c then [] # Split xs c
      else (case Split xs c of [] \<Rightarrow> [[x]] | p # ps \<Rightarrow> (x # p) # ps))"

text \<open>The index expression \<open>a[i]\<close> on a slice: a run-time panic when out of range.\<close>

definition index :: "'a list \<Rightarrow> nat \<Rightarrow> 'a outcome" where
  "index a i = (if i < length a then Ok (a ! i) else Panic (IndexOutOfRange i (length a)))"

text \<open>
  The slice expression \<open>v[s:e]\<close>. On a string the bounds must satisfy
  \<open>0 \<le> s \<le> e \<le> len(v)\<close>; on a slice the upper bound is the capacity.
\<close>

definition slice_string :: "string \<Rightarrow> int \<Rightarrow> int \<Rightarrow> string outcome" where
  "slice_string v s e =
     (if 0 \<le> s \<and> s \<le> e \<and> e \<le> int (length v)
      then Ok (take (nat (e - s)) (drop (nat s) v))
      else Panic SliceBoundsOutOfRange)"

definition slice_slice :: "val list \<Rightarrow> val list \<Rightarrow> int \<Rightarrow> int \<Rightarrow> val outcome" where
  "slice_slice xs spare s e =
     (if 0 \<le> s \<and> s \<le> e \<and> e \<le> int (length xs + length spare)
      then Ok (VSlice (take (nat (e - s)) (drop (nat s) (xs @ spare))) (drop (nat e) (xs @ spare)))
      else Panic SliceBoundsOutOfRange)"

section \<open>The template function library\<close>

definition ip :: "val \<Rightarrow> val outcome" where
  "ip val =
     (let s = Sprintf_v val; a = Split s CHR ''/''
      in case index a 0 of Ok x \<Rightarrow> Ok (VString x) | Err m \<Rightarrow> Err m | Panic p \<Rightarrow> Panic p)"

definition ipmask :: "val \<Rightarrow> val outcome" where
  "ipmask val =
     (let s = Sprintf_v val; a = Split s CHR ''/''
      in case index a 1 of Ok x \<Rightarrow> Ok (VString x) | Err m \<Rightarrow> Err m | Panic p \<Rightarrow> Panic p)"

definition slice :: "val \<Rightarrow> val \<Rightarrow> val \<Rightarrow> val outcome" where
  "slice val start endv =
     (case start of
        VInt s \<Rightarrow>
          (case endv of
             VInt e \<Rightarrow>
               (case val of
                  VString v \<Rightarrow>
                    (let s = (if s < 0 then s + int (length v) else s);
                         e = (if e < 0 then e + int (length v) else e)
                     in case slice_string v s e of
                          Ok r \<Rightarrow> Ok (VString r) | Err m \<Rightarrow> Err m | Panic p \<Rightarrow> Panic p)
                | VSlice xs spare \<Rightarrow>
                    (let s = (if s < 0 then s + int (length xs) else s);
                         e = (if e < 0 then e + int (length xs) else e)
                     in slice_slice xs spare s e)
                | _ \<Rightarrow> Err ''not an array'')
           | _ \<Rightarrow> Err (''int expeted for 3rd parameter '' @ Sprintf_v endv))
      | _ \<Rightarrow> Err (''int expeted for 2nd parameter '' @ Sprintf_v start))"

section \<open>Label maps, nodes and links\<close>

text \<open>
  A Go \<open>map[string]T\<close> is a partial function from keys. Reading a missing key of a
  \<open>map[string]string\<close> gives the empty string. A \<open>range\<close> loop visits every key
  once, in an order the run time chooses: the order is an explicit list of keys.
\<close>

type_synonym labelMap = "string \<rightharpoonup> string"

definition lookup0 :: "labelMap \<Rightarrow> string \<Rightarrow> string" where
  "lookup0 m k = (case m k of None \<Rightarrow> [] | Some v \<Rightarrow> v)"

definition range_order :: "(string \<rightharpoonup> 'v) \<Rightarrow> string list \<Rightarrow> bool" where
  "range_order m ks \<longleftrightarrow> distinct ks \<and> set ks = dom m"

record node =
  ShortName :: string
  LongName :: string
  Labels :: labelMap

record endpoint =
  Node :: node

record link =
  A :: endpoint
  B :: endpoint
  Labels :: labelMap

text \<open>
  The collaborators of the package that live outside it: the address assignment
  \<open>linkIPfromSystemIP\<close> (an error, or the \<open>String()\<close> forms of the two addresses),
  the display string \<open>link.String()\<close>, and the label key \<open>systemIP\<close>.
\<close>

record collaborators =
  linkIPfromSystemIP :: "link \<Rightarrow> string + (string \<times> string)"
  link_String :: "link \<Rightarrow> string"
  systemIP :: string

section \<open>The template store\<close>

text \<open>
  A compiled template set is taken by what \<open>ExecuteTemplate\<close> does with it: from a
  template name and the data it gives an error or the bytes written to the buffer.
  The cache \<open>templates\<close> is a Go map from kinds to pointers, itself nil at first:
  \<open>None\<close> is the nil map, and a slot holding \<open>None\<close> is a key bound to a nil pointer.
  \<open>parsed\<close> records the calls of \<open>ParseGlob\<close>, kind and template path, latest last.
\<close>

type_synonym template = "string \<Rightarrow> labelMap \<Rightarrow> string + string"

record store =
  templates :: "(string \<rightharpoonup> template option) option"
  parsed :: "(string \<times> string) list"

definition init_store :: store where
  "init_store = \<lparr>templates = None, parsed = []\<rparr>"

text \<open>\<open>_, ok := templates[kind]\<close> and \<open>t := templates[kind]\<close>.\<close>

definition slot :: "store \<Rightarrow> string \<Rightarrow> template option option" where
  "slot st kind = (case templates st of None \<Rightarrow> None | Some m \<Rightarrow> m kind)"

definition lookup_template :: "store \<Rightarrow> string \<Rightarrow> template option" where
  "lookup_template st kind = (case slot st kind of None \<Rightarrow> None | Some t \<Rightarrow> t)"

text \<open>
  \<open>ParseGlob\<close> reads the file system: \<open>fs kind templatePath\<close> is what
  \<open>template.New(kind).Funcs(funcMap).ParseGlob(filepath.Join(templatePath, kind, "*.tmpl"))\<close>
  returns at the time of the call, an error or the compiled set; with an error the
  returned pointer is nil. The result is the returned error and the store afterwards.
\<close>

definition LoadTemplate ::
  "(string \<Rightarrow> string \<Rightarrow> string + template) \<Rightarrow> store \<Rightarrow> string \<Rightarrow> string \<Rightarrow> string option \<times> store" where
  "LoadTemplate fs st kind templatePath =
     (let m = (case templates st of None \<Rightarrow> Map.empty | Some m \<Rightarrow> m)
      in case m kind of
           Some t \<Rightarrow> (None, st\<lparr>templates := Some m\<rparr>)
         | None \<Rightarrow>
             (case fs kind templatePath of
                Inl err \<Rightarrow>
                  (Some err, \<lparr>templates = Some (m(kind \<mapsto> None)),
                              parsed = parsed st @ [(kind, templatePath)]\<rparr>)
              | Inr t \<Rightarrow>
                  (None, \<lparr>templates = Some (m(kind \<mapsto> Some t)),
                          parsed = parsed st @ [(kind, templatePath)]\<rparr>)))"

text \<open>A run of \<open>LoadTemplate\<close> calls, each with the file system of its time.\<close>

fun LoadTemplates ::
  "store \<Rightarrow> ((string \<Rightarrow> string \<Rightarrow> string + template) \<times> string \<times> string) list \<Rightarrow> store" where
  "LoadTemplates st [] = st"
| "LoadTemplates st ((fs, kind, templatePath) # cs) =
     LoadTemplates (snd (LoadTemplate fs st kind templatePath)) cs"

section \<open>The template renderer\<close>

record ConfigSnippet =
  TargetNode :: "node option"
  templateName :: string
  source :: string
  templateLabels :: labelMap
  Config :: "string list"

text \<open>
  \<open>bufio.Scanner\<close> with its default split function \<open>ScanLines\<close>, as the Go library
  documents it: a line ends at a newline, one carriage return before the end of a line
  is dropped, a last line without a newline is returned when it is not empty, and
  \<open>Scan\<close> gives up for good (it returns false) at a line that does not fit the buffer
  of \<open>MaxScanTokenSize\<close> bytes. \<open>scan\<close> is the loop
  \<open>for s.Scan() { res = append(res, s.Text()) }\<close>.
\<close>

definition MaxScanTokenSize :: nat where
  "MaxScanTokenSize = 64 * 1024"

definition dropCR :: "string \<Rightarrow> string" where
  "dropCR data = (if data \<noteq> [] \<and> last data = CHR 0x0D then butlast data else data)"

function scan :: "string \<Rightarrow> string list" where
  "scan buf =
     (if buf = [] then []
      else let line = takeWhile (\<lambda>c. c \<noteq> CHR 0x0A) buf;
               rest = dropWhile (\<lambda>c. c \<noteq> CHR 0x0A) buf
           in if MaxScanTokenSize \<le> length line then []
              else dropCR line # scan (drop 1 rest))"
  by pat_completeness auto
termination
  apply (relation "measure length")
   apply simp
  subgoal for buf line rest
    using length_dropWhile_le [of "\<lambda>c. c \<noteq> CHR 0x0A" buf]
    by (cases "dropWhile (\<lambda>c. c \<noteq> CHR 0x0A) buf") auto
  done

declare scan.simps [simp del]

definition RenderTemplate :: "store \<Rightarrow> string \<Rightarrow> string \<Rightarrow> labelMap \<Rightarrow> ConfigSnippet outcome" where
  "RenderTemplate st kind name labels =
     (case lookup_template st kind of
        None \<Rightarrow> Panic NilPointerDereference
      | Some t \<Rightarrow>
          (case t name labels of
             Inl err \<Rightarrow> Err err
           | Inr buf \<Rightarrow>
               Ok \<lparr>TargetNode = None, templateName = name, source = [],
                   templateLabels = labels, Config = scan buf\<rparr>))"

text \<open>
  The lines of the rendered output as the specification words them: the output split at
  its newlines, in order, every line kept as it is, and no empty line after a final
  newline.
\<close>

definition lines_spec :: "string \<Rightarrow> string list" where
  "lines_spec out =
     (let ps = Split out CHR 0x0A
      in if last ps = [] then butlast ps else ps)"

definition RenderNode :: "store \<Rightarrow> node \<Rightarrow> ConfigSnippet outcome" where
  "RenderNode st n =
     (let kind = lookup0 (node.Labels n) ''clab-node-kind''
      in case RenderTemplate st kind ''base-node.tmpl'' (node.Labels n) of
           Err err \<Rightarrow> Err (''render node '' @ LongName n @ '' ['' @ kind @ '']: '' @ err)
         | Panic p \<Rightarrow> Panic p
         | Ok res \<Rightarrow> Ok (res\<lparr>source := ''node'', TargetNode := Some n\<rparr>))"

section \<open>The link renderer\<close>

text \<open>
  The map \<open>l\<close> of \<open>RenderLink\<close> goes from an attribute name to the values for side A
  and side B. The loop over \<open>link.Labels\<close> splits every label at its commas and keeps
  the result when it has one or two elements; otherwise it logs a warning, and the
  warnings logged so far are the second component.
\<close>

type_synonym pairMap = "string \<rightharpoonup> string list"

definition Warnf :: "string \<Rightarrow> string \<Rightarrow> nat \<Rightarrow> string \<Rightarrow> string" where
  "Warnf ls k n v = ls @ '': '' @ k @ '' contains '' @ digits n @ '' elements: '' @ v"

fun splitLabels ::
  "string \<Rightarrow> labelMap \<Rightarrow> string list \<Rightarrow> pairMap \<times> string list \<Rightarrow> pairMap \<times> string list" where
  "splitLabels ls labels [] (l, warns) = (l, warns)"
| "splitLabels ls labels (k # ks) (l, warns) =
     (case labels k of
        None \<Rightarrow> splitLabels ls labels ks (l, warns)
      | Some v \<Rightarrow>
          (let r = Split v CHR '',''
           in if length r = 1 \<or> length r = 2
              then splitLabels ls labels ks (l(k \<mapsto> r), warns)
              else splitLabels ls labels ks (l, warns @ [Warnf ls k (length r) v])))"

definition defaultName :: "link \<Rightarrow> pairMap \<Rightarrow> pairMap" where
  "defaultName lnk l =
     (case l ''name'' of
        Some v \<Rightarrow> l
      | None \<Rightarrow>
          (let linkNr = lookup0 (link.Labels lnk) ''linkNr'';
               linkNr = (if 0 < length linkNr then ''_'' @ linkNr else linkNr)
           in l(''name'' \<mapsto> [''to_'' @ ShortName (Node (B lnk)) @ linkNr,
                               ''to_'' @ ShortName (Node (A lnk)) @ linkNr])))"

text \<open>
  \<open>labelPairs\<close> is \<open>l\<close> after the loop over the labels, for the addresses \<open>ipA\<close>
  and \<open>ipB\<close> that the address assignment returned, with the warnings logged;
  \<open>linkPairs\<close> is \<open>l\<close> after the default names are set, when the per-side loop starts.
\<close>

definition labelPairs ::
  "collaborators \<Rightarrow> link \<Rightarrow> string \<Rightarrow> string \<Rightarrow> string list \<Rightarrow> pairMap \<times> string list" where
  "labelPairs env lnk ipA ipB ordL =
     (let l = [''ip'' \<mapsto> [ipA, ipB]];
          l = l(''systemip'' \<mapsto> [lookup0 (node.Labels (Node (A lnk))) (systemIP env),
                                   lookup0 (node.Labels (Node (B lnk))) (systemIP env)])
      in splitLabels (link_String env lnk) (link.Labels lnk) ordL (l, []))"

definition linkPairs ::
  "collaborators \<Rightarrow> link \<Rightarrow> string \<Rightarrow> string \<Rightarrow> string list \<Rightarrow> pairMap \<times> string list" where
  "linkPairs env lnk ipA ipB ordL =
     (let (l, warns) = labelPairs env lnk ipA ipB ordL
      in (defaultName lnk l, warns))"

text \<open>
  The two loops over \<open>l\<close> that build \<open>curL\<close>: for side A
  \<open>curL[k] = v[0]; if len(v) > 1 { curL[k+"_far"] = v[1] }\<close>, for side B
  \<open>if len(v) == 1 { curL[k] = v[0] } else { curL[k] = v[1]; curL[k+"_far"] = v[0] }\<close>.
  An index out of range is a panic.
\<close>

fun labelsA :: "pairMap \<Rightarrow> string list \<Rightarrow> labelMap \<Rightarrow> labelMap outcome" where
  "labelsA l [] curL = Ok curL"
| "labelsA l (k # ks) curL =
     (case l k of
        None \<Rightarrow> labelsA l ks curL
      | Some v \<Rightarrow>
          (case v of
             [] \<Rightarrow> Panic (IndexOutOfRange 0 0)
           | [x] \<Rightarrow> labelsA l ks (curL(k \<mapsto> x))
           | x # y # zs \<Rightarrow> labelsA l ks (curL(k \<mapsto> x, k @ ''_far'' \<mapsto> y))))"

fun labelsB :: "pairMap \<Rightarrow> string list \<Rightarrow> labelMap \<Rightarrow> labelMap outcome" where
  "labelsB l [] curL = Ok curL"
| "labelsB l (k # ks) curL =
     (case l k of
        None \<Rightarrow> labelsB l ks curL
      | Some v \<Rightarrow>
          (case v of
             [] \<Rightarrow> Panic (IndexOutOfRange 1 0)
           | [x] \<Rightarrow> labelsB l ks (curL(k \<mapsto> x))
           | x # y # zs \<Rightarrow> labelsB l ks (curL(k \<mapsto> y, k @ ''_far'' \<mapsto> x))))"

definition bind :: "'a outcome \<Rightarrow> ('a \<Rightarrow> 'b outcome) \<Rightarrow> 'b outcome" where
  "bind m f = (case m of Ok x \<Rightarrow> f x | Err e \<Rightarrow> Err e | Panic p \<Rightarrow> Panic p)"

text \<open>The rendering of one side, \<open>curN\<close> with its labels \<open>curL\<close>.\<close>

definition renderSide ::
  "collaborators \<Rightarrow> store \<Rightarrow> link \<Rightarrow> node \<Rightarrow> labelMap \<Rightarrow> ConfigSnippet outcome" where
  "renderSide env st lnk curN curL =
     (let kind = lookup0 (node.Labels curN) ''clab-node-kind''
      in case RenderTemplate st kind ''base-link.tmpl'' curL of
           Err err \<Rightarrow>
             Err (''render '' @ link_String env lnk @ '' on '' @ LongName curN
                  @ '' ('' @ kind @ ''): '' @ err)
         | Panic p \<Rightarrow> Panic p
         | Ok res \<Rightarrow> Ok (res\<lparr>source := link_String env lnk, TargetNode := Some curN\<rparr>))"

text \<open>
  \<open>RenderLink\<close>, with the orders \<open>ordL\<close>, \<open>ordA\<close> and \<open>ordB\<close> in which the three
  \<open>range\<close> loops visit their keys. The loop \<open>for li := 0; li < 2; li++\<close> is written
  out: side A, then side B. The result is the outcome and the warnings logged.
\<close>

definition RenderLink ::
  "collaborators \<Rightarrow> store \<Rightarrow> link \<Rightarrow> string list \<Rightarrow> string list \<Rightarrow> string list
     \<Rightarrow> (ConfigSnippet \<times> ConfigSnippet) outcome \<times> string list" where
  "RenderLink env st lnk ordL ordA ordB =
     (case linkIPfromSystemIP env lnk of
        Inl err \<Rightarrow> (Err (link_String env lnk @ '': '' @ err), [])
      | Inr (ipA, ipB) \<Rightarrow>
          (let (l, warns) = linkPairs env lnk ipA ipB ordL
           in (bind (labelsA l ordA Map.empty) (\<lambda>curL.
               bind (renderSide env st lnk (Node (A lnk)) curL) (\<lambda>resA.
               bind (labelsB l ordB Map.empty) (\<lambda>curL.
               bind (renderSide env st lnk (Node (B lnk)) curL) (\<lambda>res.
               Ok (resA, res))))), warns)))"

subsection \<open>Predicates for the statements about the link renderer\<close>

text \<open>
  \<open>wf_pairs l\<close>: every attribute of \<open>l\<close> has one or two values.
  \<open>writes l k k'\<close>: the visit of the attribute \<open>k\<close> in a per-side loop assigns
  to the key \<open>k'\<close> of \<open>curL\<close>, which is \<open>k\<close> itself or, for more than one value,
  \<open>k\<close> followed by \<open>_far\<close>.
\<close>

definition wf_pairs :: "pairMap \<Rightarrow> bool" where
  "wf_pairs l \<longleftrightarrow> (\<forall>k v. l k = Some v \<longrightarrow> length v = 1 \<or> length v = 2)"

definition writes :: "pairMap \<Rightarrow> string \<Rightarrow> string \<Rightarrow> bool" where
  "writes l k k' \<longleftrightarrow> (\<exists>v. l k = Some v \<and> (k = k' \<or> (1 < length v \<and> k @ ''_far'' = k')))"

section \<open>Example inputs\<close>

text \<open>
  A template set whose link and node templates print one line naming the interface,
  a store holding it for the kind \<open>srl\<close>, two nodes \<open>r1\<close> and \<open>r2\<close> of that kind,
  a link between them with given labels, and collaborators that assign the addresses
  \<open>10.0.0.0\<close> and \<open>10.0.0.1\<close>.
\<close>

definition ex_template :: template where
  "ex_template name labels = Inr (''interface '' @ lookup0 labels ''name'' @ [CHR 0x0A])"

definition ex_store :: store where
  "ex_store = \<lparr>templates = Some [''srl'' \<mapsto> Some ex_template], parsed = [(''srl'', ''/templates'')]\<rparr>"

definition ex_node :: "string \<Rightarrow> string \<Rightarrow> node" where
  "ex_node name sysip =
     \<lparr>ShortName = name, LongName = ''clab-lab-'' @ name,
      Labels = [''clab-node-kind'' \<mapsto> ''srl'', ''systemip'' \<mapsto> sysip]\<rparr>"

definition ex_link :: "labelMap \<Rightarrow> link" where
  "ex_link labels =
     \<lparr>A = \<lparr>Node = ex_node ''r1'' ''10.1.1.1/32''\<rparr>, B = \<lparr>Node = ex_node ''r2'' ''10.1.1.2/32''\<rparr>,
      Labels = labels\<rparr>"

definition ex_env :: collaborators where
  "ex_env = \<lparr>linkIPfromSystemIP = (\<lambda>lnk. Inr (''10.0.0.0'', ''10.0.0.1'')),
             link_String = (\<lambda>lnk. ''r1:e1 <-> r2:e1''),
             systemIP = ''systemip''\<rparr>"

text \<open>
  A template set whose output is a line of 65536 bytes followed by a second line.
\<close>

definition ex_long_template :: template where
  "ex_long_template name labels = Inr (replicate 65536 CHR ''a'' @ CHR 0x0A # ''b'')"

text \<open>A template set written with CR LF line ends.\<close>

definition ex_crlf_template :: template where
  "ex_crlf_template name labels = Inr (''hostname r1'' @ [CHR 0x0D, CHR 0x0A])"

section \<open>The function library: \<open>ip\<close>, \<open>ipmask\<close> and \<open>slice\<close>\<close>

lemma Split_no_sep: "c \<notin> set s \<Longrightarrow> Split s c = [s]"
  by (induction s) auto

lemma Split_not_Nil: "Split s c \<noteq> []"
  by (induction s) (auto split: list.splits)

lemma Split_sep: "c \<notin> set a \<Longrightarrow> Split (a @ c # p) c = a # Split p c"
  by (induction a) auto

text \<open>
  Without a slash in the string form of its argument \<open>ipmask\<close> indexes a slice of one
  element at 1 and panics; it has no path that returns an error. \<open>ip\<close> indexes at
  0 and returns the whole string there. With one slash \<open>ipmask\<close> returns what follows it.
\<close>

lemma ipmask_no_slash:
  "CHR ''/'' \<notin> set (Sprintf_v v) \<Longrightarrow> ipmask v = Panic (IndexOutOfRange 1 1)"
  by (simp add: ipmask_def index_def Split_no_sep)

lemma ipmask_never_Err: "ipmask v \<noteq> Err m"
  by (simp add: ipmask_def index_def Let_def)

lemma ipmask_address_prefix:
  "CHR ''/'' \<notin> set a \<Longrightarrow> CHR ''/'' \<notin> set p \<Longrightarrow>
   ipmask (VString (a @ ''/'' @ p)) = Ok (VString p)"
  by (simp add: ipmask_def index_def Split_sep Split_no_sep)

lemma ip_no_slash:
  "CHR ''/'' \<notin> set (Sprintf_v v) \<Longrightarrow> ip v = Ok (VString (Sprintf_v v))"
  by (simp add: ip_def index_def Split_no_sep)

text \<open>
  C2. The claim asks \<open>ipmask\<close> to return an InvalidFormat error for a value without a
  slash. On \<open>10.0.0.1\<close> the function returns no error: it panics with an index out of
  range, where its sibling \<open>ip\<close> returns the address.
\<close>

theorem ipmask_without_slash_panics:
  "ipmask (VString ''10.0.0.1'') = Panic (IndexOutOfRange 1 1)
   \<and> ip (VString ''10.0.0.1'') = Ok (VString ''10.0.0.1'')"
  by (simp add: ipmask_def ip_def index_def)

text \<open>
  C10. \<open>slice\<close> returns an error exactly when \<open>start\<close> or \<open>end\<close> is not an integer or
  the value is neither a string nor a generic sequence. With integer indices that are,
  after the adjustment of negative ones, outside the valid range (of a string: up to
  its length; of a sequence: up to its capacity), the slice expression is evaluated
  all the same and panics.
\<close>

theorem slice_unguarded:
  "((\<exists>m. slice val start endv = Err m) \<longleftrightarrow>
      (\<nexists>i. start = VInt i) \<or> (\<nexists>i. endv = VInt i)
      \<or> ((\<nexists>x. val = VString x) \<and> (\<nexists>xs spare. val = VSlice xs spare)))
   \<and> (let n = int (length x);
           s' = (if s < 0 then s + n else s);
           e' = (if e < 0 then e + n else e)
       in \<not> (0 \<le> s' \<and> s' \<le> e' \<and> e' \<le> n) \<longrightarrow>
          slice (VString x) (VInt s) (VInt e) = Panic SliceBoundsOutOfRange)
   \<and> (let n = int (length xs);
           s' = (if s < 0 then s + n else s);
           e' = (if e < 0 then e + n else e)
       in \<not> (0 \<le> s' \<and> s' \<le> e' \<and> e' \<le> n + int (length spare)) \<longrightarrow>
          slice (VSlice xs spare) (VInt s) (VInt e) = Panic SliceBoundsOutOfRange)"
proof -
  have a: "(\<exists>m. slice val start endv = Err m) \<longleftrightarrow>
      (\<nexists>i. start = VInt i) \<or> (\<nexists>i. endv = VInt i)
      \<or> ((\<nexists>x. val = VString x) \<and> (\<nexists>xs spare. val = VSlice xs spare))"
    by (cases start; cases endv; cases val)
       (simp_all add: slice_def slice_string_def slice_slice_def Let_def)
  have b: "\<not> (0 \<le> s' \<and> s' \<le> e' \<and> e' \<le> int (length x)) \<Longrightarrow>
     s' = (if s < 0 then s + int (length x) else s) \<Longrightarrow>
     e' = (if e < 0 then e + int (length x) else e) \<Longrightarrow>
     slice (VString x) (VInt s) (VInt e) = Panic SliceBoundsOutOfRange" for s' e'
    by (simp add: slice_def slice_string_def Let_def)
  have c: "\<not> (0 \<le> s' \<and> s' \<le> e' \<and> e' \<le> int (length xs) + int (length spare)) \<Longrightarrow>
     s' = (if s < 0 then s + int (length xs) else s) \<Longrightarrow>
     e' = (if e < 0 then e + int (length xs) else e) \<Longrightarrow>
     slice (VSlice xs spare) (VInt s) (VInt e) = Panic SliceBoundsOutOfRange" for s' e'
    by (simp add: slice_def slice_slice_def Let_def)
  show ?thesis
    using a b c unfolding Let_def by blast
qed

theorem slice_unguarded_witness:
  "slice (VString ''abc'') (VInt 0) (VInt 4) = Panic SliceBoundsOutOfRange
   \<and> slice (VSlice [VInt 1, VInt 2] []) (VInt (- 3)) (VInt 1) = Panic SliceBoundsOutOfRange
   \<and> (\<exists>m. slice (VString ''abc'') (VString ''0'') (VInt 1) = Err m)"
  using slice_unguarded [of "VString ''abc''" "VString ''0''" "VInt 1" "''abc''" 0 4
      "[VInt 1, VInt 2]" "[]"]
    slice_unguarded [of "VString ''abc''" "VString ''0''" "VInt 1" "''abc''" "- 3" 1
      "[VInt 1, VInt 2]" "[]"]
  by (simp add: Let_def)

section \<open>The template store\<close>

lemma LoadTemplate_loaded:
  "slot st kind = Some x \<Longrightarrow> LoadTemplate fs st kind templatePath = (None, st)"
  by (cases "templates st") (simp_all add: slot_def LoadTemplate_def)

lemma slot_LoadTemplate_kept:
  "slot st K = Some x \<Longrightarrow> slot (snd (LoadTemplate fs st kind templatePath)) K = Some x"
  by (cases "templates st")
     (auto simp add: slot_def LoadTemplate_def split: option.splits sum.splits)

lemma slot_LoadTemplates_kept:
  "slot st K = Some x \<Longrightarrow> slot (LoadTemplates st cs) K = Some x"
proof (induction cs arbitrary: st)
  case Nil
  then show ?case by simp
next
  case (Cons c cs)
  obtain fs kind templatePath where c: "c = (fs, kind, templatePath)"
    by (cases c) auto
  from Cons.prems have "slot (snd (LoadTemplate fs st kind templatePath)) K = Some x"
    by (rule slot_LoadTemplate_kept)
  then show ?case
    unfolding c by (simp add: Cons.IH)
qed

lemma LoadTemplate_first_success:
  "slot st K = None \<Longrightarrow> fs K templatePath = Inr t \<Longrightarrow>
   fst (LoadTemplate fs st K templatePath) = None
   \<and> slot (snd (LoadTemplate fs st K templatePath)) K = Some (Some t)
   \<and> parsed (snd (LoadTemplate fs st K templatePath)) = parsed st @ [(K, templatePath)]"
  by (cases "templates st") (simp_all add: slot_def LoadTemplate_def)

text \<open>
  A load that fails to parse binds the kind to a nil pointer all the same, because the
  result of \<open>ParseGlob\<close> is assigned to the slot before the error is looked at.
\<close>

lemma LoadTemplate_failure_fills_slot:
  "slot st K = None \<Longrightarrow> fs K templatePath = Inl err \<Longrightarrow>
   fst (LoadTemplate fs st K templatePath) = Some err
   \<and> slot (snd (LoadTemplate fs st K templatePath)) K = Some None"
  by (cases "templates st") (simp_all add: slot_def LoadTemplate_def)

text \<open>
  C9. After a load of kind \<open>K\<close> that compiled the set \<open>t\<close>, and after any further loads
  \<open>cs\<close> of any kinds, the slot of \<open>K\<close> still holds \<open>t\<close>, and a load of \<open>K\<close> returns no
  error and leaves the store as it is: the record of \<open>ParseGlob\<close> calls does not grow.
\<close>

theorem LoadTemplate_idempotent:
  assumes "slot st0 K = None" and "fs0 K p0 = Inr t"
  shows "fst (LoadTemplate fs0 st0 K p0) = None
    \<and> (let st2 = LoadTemplates (snd (LoadTemplate fs0 st0 K p0)) cs
       in slot st2 K = Some (Some t) \<and> LoadTemplate fs st2 K p = (None, st2))"
proof -
  let ?st1 = "snd (LoadTemplate fs0 st0 K p0)"
  from assms have 1: "fst (LoadTemplate fs0 st0 K p0) = None" and 2: "slot ?st1 K = Some (Some t)"
    by (simp_all add: LoadTemplate_first_success)
  from 2 have 3: "slot (LoadTemplates ?st1 cs) K = Some (Some t)"
    by (rule slot_LoadTemplates_kept)
  from 3 have "LoadTemplate fs (LoadTemplates ?st1 cs) K p = (None, LoadTemplates ?st1 cs)"
    by (rule LoadTemplate_loaded)
  with 1 3 show ?thesis by (simp add: Let_def)
qed

theorem LoadTemplate_idempotent_witness:
  "fst (LoadTemplate (\<lambda>kind path. Inr ex_template) init_store ''srl'' ''/templates'') = None
   \<and> (let st2 = LoadTemplates
                  (snd (LoadTemplate (\<lambda>kind path. Inr ex_template) init_store ''srl'' ''/templates''))
                  [(\<lambda>kind path. Inl ''no such file'', ''ceos'', ''/templates'')]
       in slot st2 ''srl'' = Some (Some ex_template)
          \<and> LoadTemplate (\<lambda>kind path. Inl ''no such file'') st2 ''srl'' ''/other'' = (None, st2))"
  using LoadTemplate_idempotent [of init_store "''srl''" "\<lambda>kind path. Inr ex_template"
      "''/templates''" ex_template "[(\<lambda>kind path. Inl ''no such file'', ''ceos'', ''/templates'')]"
      "\<lambda>kind path. Inl ''no such file''" "''/other''"]
  by (simp add: slot_def init_store_def)

text \<open>
  C8. The claim asks that a load failing with a parse error leaves the slot of the kind
  unpopulated, so that the next load compiles again. In the empty store, a load of
  \<open>srl\<close> that fails to parse returns the error and leaves \<open>srl\<close> bound to a nil
  pointer; the next load of \<open>srl\<close>, with templates that now parse, returns no error,
  calls \<open>ParseGlob\<close> no more and leaves the nil pointer in place.
\<close>

theorem LoadTemplate_failure_blocks_retry:
  "LoadTemplate (\<lambda>kind path. Inl ''parse error'') init_store ''srl'' ''/templates''
     = (Some ''parse error'',
        \<lparr>templates = Some [''srl'' \<mapsto> None], parsed = [(''srl'', ''/templates'')]\<rparr>)
   \<and> slot \<lparr>templates = Some [''srl'' \<mapsto> None], parsed = [(''srl'', ''/templates'')]\<rparr> ''srl''
       = Some None
   \<and> LoadTemplate (\<lambda>kind path. Inr ex_template)
        \<lparr>templates = Some [''srl'' \<mapsto> None], parsed = [(''srl'', ''/templates'')]\<rparr>
        ''srl'' ''/templates''
     = (None, \<lparr>templates = Some [''srl'' \<mapsto> None], parsed = [(''srl'', ''/templates'')]\<rparr>)"
  by (simp add: LoadTemplate_def init_store_def slot_def)

section \<open>The template renderer\<close>

lemma RenderTemplate_no_template:
  "lookup_template st kind = None \<Longrightarrow> RenderTemplate st kind name labels = Panic NilPointerDereference"
  by (simp add: RenderTemplate_def)

lemma RenderNode_no_template:
  "lookup_template st (lookup0 (node.Labels n) ''clab-node-kind'') = None \<Longrightarrow>
   RenderNode st n = Panic NilPointerDereference"
  by (simp add: RenderNode_def RenderTemplate_no_template)

text \<open>
  C7. The claim asks a render call for a kind that was never loaded to return a
  template-lookup error. In the empty store, \<open>RenderTemplate\<close> and \<open>RenderNode\<close> for
  the kind \<open>srl\<close> return nothing: the nil pointer read from the cache is used as the
  receiver of \<open>ExecuteTemplate\<close>, a nil pointer dereference. The same happens after a
  load of \<open>srl\<close> that failed.
\<close>

theorem RenderTemplate_unloaded_kind_panics:
  "RenderTemplate init_store ''srl'' ''base-node.tmpl'' Map.empty = Panic NilPointerDereference
   \<and> RenderNode init_store
        \<lparr>ShortName = ''r1'', LongName = ''clab-lab-r1'', Labels = [''clab-node-kind'' \<mapsto> ''srl'']\<rparr>
       = Panic NilPointerDereference
   \<and> RenderTemplate
        (snd (LoadTemplate (\<lambda>kind path. Inl ''parse error'') init_store ''srl'' ''/templates''))
        ''srl'' ''base-node.tmpl'' Map.empty = Panic NilPointerDereference"
  by (simp add: RenderTemplate_def RenderNode_def lookup_template_def slot_def init_store_def
      lookup0_def LoadTemplate_def)

section \<open>Lines of the rendered output\<close>

lemma Split_unfold:
  "Split s c = (if c \<in> set s then takeWhile (\<lambda>x. x \<noteq> c) s # Split (drop 1 (dropWhile (\<lambda>x. x \<noteq> c) s)) c
                else [s])"
  by (induction s) (auto simp: Split_no_sep split: list.splits)

lemma Join_Split: "Join (Split s c) [c] = s"
proof (induction s)
  case Nil
  then show ?case by simp
next
  case (Cons x s)
  then show ?case
    by (cases "Split s c"; cases "tl (Split s c)") (auto simp: Split_not_Nil)
qed

lemma scan_Nil: "scan [] = []"
  by (simp add: scan.simps)

text \<open>
  As long as every line is shorter than the scanner's buffer, the scanner loop returns
  the lines of the specification, each without the carriage return at its end.
\<close>

lemma scan_lines_spec:
  "\<forall>ln \<in> set (Split buf CHR 0x0A). length ln < MaxScanTokenSize \<Longrightarrow>
   scan buf = map dropCR (lines_spec buf)"
proof (induction buf rule: scan.induct)
  case (1 buf)
  let ?nl = "CHR 0x0A"
  let ?line = "takeWhile (\<lambda>c. c \<noteq> ?nl) buf"
  let ?rest = "drop 1 (dropWhile (\<lambda>c. c \<noteq> ?nl) buf)"
  show ?case
  proof (cases "buf = []")
    case True
    then show ?thesis by (simp add: lines_spec_def scan_Nil)
  next
    case nonempty: False
    show ?thesis
    proof (cases "?nl \<in> set buf")
      case False
      then have sp: "Split buf ?nl = [buf]" by (simp add: Split_no_sep)
      from False have tw: "?line = buf" "dropWhile (\<lambda>c. c \<noteq> ?nl) buf = []"
        by auto
      from "1.prems" sp have short: "\<not> MaxScanTokenSize \<le> length buf" by simp
      have "scan buf = [dropCR buf]"
        using nonempty short by (subst scan.simps) (simp add: tw Let_def scan_Nil)
      moreover have "lines_spec buf = [buf]"
        using nonempty by (simp add: lines_spec_def sp)
      ultimately show ?thesis by simp
    next
      case True
      then have sp: "Split buf ?nl = ?line # Split ?rest ?nl"
        by (subst Split_unfold) simp
      from "1.prems" sp have short: "\<not> MaxScanTokenSize \<le> length ?line"
        and rest_short: "\<forall>ln \<in> set (Split ?rest ?nl). length ln < MaxScanTokenSize"
        by simp_all
      have ih: "scan ?rest = map dropCR (lines_spec ?rest)"
        using "1.IH" [OF nonempty refl refl short] rest_short by simp
      have "scan buf = dropCR ?line # scan ?rest"
        using nonempty short by (subst scan.simps) (simp add: Let_def)
      moreover have "lines_spec buf = ?line # lines_spec ?rest"
        by (simp add: lines_spec_def sp Split_not_Nil Let_def)
      ultimately show ?thesis using ih by simp
    qed
  qed
qed

text \<open>
  At a line of \<open>MaxScanTokenSize\<close> bytes or more the scanner stops, and the loop ends
  with neither that line nor any line after it.
\<close>

lemma takeWhile_replicate_sep:
  "a \<noteq> c \<Longrightarrow> takeWhile (\<lambda>x. x \<noteq> c) (replicate n a @ c # rest) = replicate n a"
  by (induction n) simp_all

lemma scan_long_line:
  "MaxScanTokenSize \<le> n \<Longrightarrow> a \<noteq> CHR 0x0A \<Longrightarrow> scan (replicate n a @ CHR 0x0A # rest) = []"
  by (subst scan.simps) (simp add: Let_def takeWhile_replicate_sep)

lemma ex_store_srl: "lookup_template ex_store ''srl'' = Some ex_template"
  by (simp add: lookup_template_def slot_def ex_store_def)

text \<open>
  C4, amended. When the template executes without error and every line of its output
  is shorter than 65536 bytes, \<open>RenderTemplate\<close> returns a snippet whose \<open>Config\<close> is
  the output split at its newlines, in order, with no line added or removed and no
  empty line for a final newline, each line without the carriage return at its end if
  it has one.
\<close>

theorem RenderTemplate_Config_lines:
  assumes "lookup_template st kind = Some t" and "t name labels = Inr buf"
    and "\<forall>ln \<in> set (Split buf CHR 0x0A). length ln < MaxScanTokenSize"
  shows "RenderTemplate st kind name labels =
           Ok \<lparr>TargetNode = None, templateName = name, source = [],
               templateLabels = labels, Config = map dropCR (lines_spec buf)\<rparr>"
  using assms by (simp add: RenderTemplate_def scan_lines_spec)

text \<open>The example template renders \<open>interface e1\<close> and a newline: one line of config.\<close>

theorem RenderTemplate_Config_lines_witness:
  "RenderTemplate ex_store ''srl'' ''base-link.tmpl'' [''name'' \<mapsto> ''e1''] =
     Ok \<lparr>TargetNode = None, templateName = ''base-link.tmpl'', source = [],
         templateLabels = [''name'' \<mapsto> ''e1''], Config = [''interface e1'']\<rparr>"
  using RenderTemplate_Config_lines [of ex_store "''srl''" ex_template "''base-link.tmpl''"
      "[''name'' \<mapsto> ''e1'']" "''interface e1'' @ [CHR 0x0A]"]
  by (simp add: ex_store_srl ex_template_def lookup0_def lines_spec_def dropCR_def
      MaxScanTokenSize_def)

text \<open>
  C4 as stated fails. For an output of two lines, the first of 65536 bytes,
  \<open>RenderTemplate\<close> succeeds with an empty \<open>Config\<close>: both lines are missing. For an
  output with CR LF line ends the line of \<open>Config\<close> is not the line of the output: its
  carriage return is gone.
\<close>

theorem RenderTemplate_lines_counterexample:
  "ex_long_template ''base-node.tmpl'' Map.empty = Inr (replicate 65536 CHR ''a'' @ CHR 0x0A # ''b'')
   \<and> RenderTemplate \<lparr>templates = Some [''srl'' \<mapsto> Some ex_long_template], parsed = []\<rparr>
        ''srl'' ''base-node.tmpl'' Map.empty
      = Ok \<lparr>TargetNode = None, templateName = ''base-node.tmpl'', source = [],
            templateLabels = Map.empty, Config = []\<rparr>
   \<and> lines_spec (replicate 65536 CHR ''a'' @ CHR 0x0A # ''b'') = [replicate 65536 CHR ''a'', ''b'']
   \<and> RenderTemplate \<lparr>templates = Some [''srl'' \<mapsto> Some ex_crlf_template], parsed = []\<rparr>
        ''srl'' ''base-node.tmpl'' Map.empty
      = Ok \<lparr>TargetNode = None, templateName = ''base-node.tmpl'', source = [],
            templateLabels = Map.empty, Config = [''hostname r1'']\<rparr>
   \<and> lines_spec (''hostname r1'' @ [CHR 0x0D, CHR 0x0A]) = [''hostname r1'' @ [CHR 0x0D]]"
proof -
  have "scan (replicate 65536 CHR ''a'' @ CHR 0x0A # ''b'') = []"
    by (rule scan_long_line) (simp_all add: MaxScanTokenSize_def)
  moreover have "lines_spec (replicate 65536 CHR ''a'' @ CHR 0x0A # ''b'')
      = [replicate 65536 CHR ''a'', ''b'']"
    by (simp add: lines_spec_def Split_sep Split_no_sep)
  moreover have "scan (''hostname r1'' @ [CHR 0x0D, CHR 0x0A]) = [''hostname r1'']"
    by (simp add: scan.simps dropCR_def MaxScanTokenSize_def)
  moreover have "lines_spec (''hostname r1'' @ [CHR 0x0D, CHR 0x0A]) = [''hostname r1'' @ [CHR 0x0D]]"
    by (simp add: lines_spec_def)
  ultimately show ?thesis
    by (simp add: RenderTemplate_def lookup_template_def slot_def ex_long_template_def
        ex_crlf_template_def)
qed

section \<open>The pair mapping of a link\<close>

text \<open>
  What the loop over the labels leaves at a key: the split of the label when the label
  is visited and has one or two tokens, what was there before otherwise.
\<close>

lemma splitLabels_lookup:
  "fst (splitLabels ls labels ks (l, w)) k =
     (if k \<in> set ks then
        (case labels k of
           None \<Rightarrow> l k
         | Some v \<Rightarrow>
             if length (Split v CHR '','') = 1 \<or> length (Split v CHR '','') = 2
             then Some (Split v CHR '','') else l k)
      else l k)"
proof (induction ks arbitrary: l w)
  case Nil
  then show ?case by simp
next
  case (Cons a ks)
  show ?case
  proof (cases "labels a")
    case None
    then show ?thesis by (simp add: Cons.IH)
  next
    case (Some v)
    show ?thesis
    proof (cases "a = k")
      case True
      with Some show ?thesis by (simp add: Cons.IH Let_def)
    next
      case False
      with Some show ?thesis by (auto simp add: Cons.IH Let_def split: option.splits)
    qed
  qed
qed

lemma splitLabels_warns_mono:
  "set w \<subseteq> set (snd (splitLabels ls labels ks (l, w)))"
proof (induction ks arbitrary: l w)
  case Nil
  then show ?case by simp
next
  case (Cons a ks)
  show ?case
  proof (cases "labels a")
    case None
    then show ?thesis using Cons.IH by simp
  next
    case (Some v)
    show ?thesis
    proof (cases "length (Split v CHR '','') = 1 \<or> length (Split v CHR '','') = 2")
      case True
      with Some show ?thesis using Cons.IH by (simp add: Let_def)
    next
      case False
      have "set (w @ [Warnf ls a (length (Split v CHR '','')) v])
            \<subseteq> set (snd (splitLabels ls labels ks (l, w @ [Warnf ls a (length (Split v CHR '','')) v])))"
        by (rule Cons.IH)
      with Some False show ?thesis by (simp add: Let_def)
    qed
  qed
qed

lemma splitLabels_warns:
  "k \<in> set ks \<Longrightarrow> labels k = Some v \<Longrightarrow> 2 < length (Split v CHR '','') \<Longrightarrow>
   Warnf ls k (length (Split v CHR '','')) v \<in> set (snd (splitLabels ls labels ks (l, w)))"
proof (induction ks arbitrary: l w)
  case Nil
  then show ?case by simp
next
  case (Cons a ks)
  show ?case
  proof (cases "a = k")
    case True
    have "set (w @ [Warnf ls k (length (Split v CHR '','')) v])
          \<subseteq> set (snd (splitLabels ls labels ks (l, w @ [Warnf ls k (length (Split v CHR '','')) v])))"
      by (rule splitLabels_warns_mono)
    with True Cons.prems show ?thesis by (simp add: Let_def)
  next
    case False
    with Cons.prems have "k \<in> set ks" by simp
    then show ?thesis
      using Cons.IH Cons.prems(2,3) by (simp add: Let_def split: option.splits)
  qed
qed

lemma Split_length_pos: "0 < length (Split s c)"
  by (simp add: Split_not_Nil)

lemma labelPairs_lookup:
  "fst (labelPairs env lnk ipA ipB ordL) k =
     (let l0 = [''ip'' \<mapsto> [ipA, ipB],
                ''systemip'' \<mapsto> [lookup0 (node.Labels (Node (A lnk))) (systemIP env),
                                  lookup0 (node.Labels (Node (B lnk))) (systemIP env)]]
      in if k \<in> set ordL then
           (case link.Labels lnk k of
              None \<Rightarrow> l0 k
            | Some v \<Rightarrow>
                if length (Split v CHR '','') = 1 \<or> length (Split v CHR '','') = 2
                then Some (Split v CHR '','') else l0 k)
         else l0 k)"
  unfolding labelPairs_def Let_def by (rule splitLabels_lookup)

lemma wf_pairs_labelPairs: "wf_pairs (fst (labelPairs env lnk ipA ipB ordL))"
  unfolding wf_pairs_def labelPairs_def Let_def splitLabels_lookup
  by (auto split: option.splits if_splits)

lemma wf_pairs_linkPairs: "wf_pairs (fst (linkPairs env lnk ipA ipB ordL))"
proof -
  let ?l = "fst (labelPairs env lnk ipA ipB ordL)"
  have wf: "wf_pairs ?l" by (rule wf_pairs_labelPairs)
  have "fst (linkPairs env lnk ipA ipB ordL) = defaultName lnk ?l"
    by (simp add: linkPairs_def case_prod_beta)
  moreover have "wf_pairs (defaultName lnk ?l)"
  proof (cases "?l ''name''")
    case None
    with wf show ?thesis
      by (simp add: defaultName_def Let_def wf_pairs_def)
  next
    case (Some v)
    with wf show ?thesis
      by (simp add: defaultName_def)
  qed
  ultimately show ?thesis by simp
qed

lemma linkPairs_other:
  "k \<noteq> ''name'' \<Longrightarrow>
   fst (linkPairs env lnk ipA ipB ordL) k = fst (labelPairs env lnk ipA ipB ordL) k"
  by (simp add: linkPairs_def defaultName_def Let_def case_prod_beta split: option.splits)

lemma linkPairs_warns:
  "snd (linkPairs env lnk ipA ipB ordL) = snd (labelPairs env lnk ipA ipB ordL)"
  by (simp add: linkPairs_def case_prod_beta)

lemma linkPairs_name_default:
  "fst (labelPairs env lnk ipA ipB ordL) ''name'' = None \<Longrightarrow>
   fst (linkPairs env lnk ipA ipB ordL) ''name'' =
     Some (let nr = lookup0 (link.Labels lnk) ''linkNr'';
               suffix = (if nr = [] then [] else ''_'' @ nr)
           in [''to_'' @ ShortName (Node (B lnk)) @ suffix,
               ''to_'' @ ShortName (Node (A lnk)) @ suffix])"
  by (cases "lookup0 (link.Labels lnk) ''linkNr'' = []")
     (simp_all add: linkPairs_def defaultName_def Let_def case_prod_beta)

lemma linkPairs_name_kept:
  "fst (labelPairs env lnk ipA ipB ordL) ''name'' = Some v \<Longrightarrow>
   fst (linkPairs env lnk ipA ipB ordL) ''name'' = Some v"
  by (simp add: linkPairs_def defaultName_def Let_def case_prod_beta)

lemma range_order_mem: "range_order m ks \<Longrightarrow> m k = Some v \<Longrightarrow> k \<in> set ks"
  by (auto simp: range_order_def)

lemma ex_env_simps:
  "linkIPfromSystemIP ex_env lnk = Inr (''10.0.0.0'', ''10.0.0.1'')"
  "link_String ex_env lnk = ''r1:e1 <-> r2:e1''"
  "systemIP ex_env = ''systemip''"
  by (simp_all add: ex_env_def)

lemma ex_link_simps:
  "Node (A (ex_link L)) = ex_node ''r1'' ''10.1.1.1/32''"
  "Node (B (ex_link L)) = ex_node ''r2'' ''10.1.1.2/32''"
  "link.Labels (ex_link L) = L"
  by (simp_all add: ex_link_def)

lemma ex_node_simps:
  "ShortName (ex_node n s) = n"
  "LongName (ex_node n s) = ''clab-lab-'' @ n"
  "lookup0 (node.Labels (ex_node n s)) ''clab-node-kind'' = ''srl''"
  "lookup0 (node.Labels (ex_node n s)) ''systemip'' = s"
  by (simp_all add: ex_node_def lookup0_def)

text \<open>
  C3, amended. With the addresses \<open>ipA\<close> and \<open>ipB\<close> returned by the address
  assignment, the \<open>ip\<close> entry of the pair mapping is \<open>[ipA, ipB]\<close> and the
  \<open>systemip\<close> entry is the two nodes' system-IP labels when the link has no label of
  that name, or has one that splits into three or more tokens. The comma-splitting
  applies to every key of the link's labels, these two included: a link label named
  \<open>ip\<close> or \<open>systemip\<close> with one or two tokens replaces the computed entry.
\<close>

theorem linkPairs_ip_systemip:
  assumes "linkIPfromSystemIP env lnk = Inr (ipA, ipB)"
    and "range_order (link.Labels lnk) ordL"
  shows "fst (linkPairs env lnk ipA ipB ordL) ''ip'' =
           (case link.Labels lnk ''ip'' of
              None \<Rightarrow> Some [ipA, ipB]
            | Some v \<Rightarrow> if length (Split v CHR '','') \<le> 2 then Some (Split v CHR '','')
                        else Some [ipA, ipB])
       \<and> fst (linkPairs env lnk ipA ipB ordL) ''systemip'' =
           (case link.Labels lnk ''systemip'' of
              None \<Rightarrow> Some [lookup0 (node.Labels (Node (A lnk))) (systemIP env),
                             lookup0 (node.Labels (Node (B lnk))) (systemIP env)]
            | Some v \<Rightarrow> if length (Split v CHR '','') \<le> 2 then Some (Split v CHR '','')
                        else Some [lookup0 (node.Labels (Node (A lnk))) (systemIP env),
                                   lookup0 (node.Labels (Node (B lnk))) (systemIP env)])"
proof -
  have le2: "length (Split v CHR '','') \<le> 2 \<longleftrightarrow>
             length (Split v CHR '','') = 1 \<or> length (Split v CHR '','') = 2" for v
    using Split_length_pos [of v "CHR '',''"] by arith
  have mem: "k \<in> set ordL \<longleftrightarrow> link.Labels lnk k \<noteq> None" for k
    using assms(2) by (auto simp: range_order_def)
  show ?thesis
    by (auto simp: linkPairs_other labelPairs_lookup Let_def mem le2 split: option.splits)
qed

theorem linkPairs_ip_systemip_witness:
  "fst (linkPairs ex_env (ex_link [''mtu'' \<mapsto> ''1500'']) ''10.0.0.0'' ''10.0.0.1'' [''mtu'']) ''ip''
     = Some [''10.0.0.0'', ''10.0.0.1'']
   \<and> fst (linkPairs ex_env (ex_link [''mtu'' \<mapsto> ''1500'']) ''10.0.0.0'' ''10.0.0.1'' [''mtu''])
       ''systemip'' = Some [''10.1.1.1/32'', ''10.1.1.2/32'']"
proof -
  have o: "range_order (link.Labels (ex_link [''mtu'' \<mapsto> ''1500''])) [''mtu'']"
    by (simp add: range_order_def ex_link_simps)
  from linkPairs_ip_systemip [OF ex_env_simps(1) o]
  show ?thesis
    by (simp add: ex_link_simps ex_node_simps ex_env_simps)
qed

section \<open>The per-side label maps\<close>

lemma labelsA_Ok: "wf_pairs l \<Longrightarrow> \<exists>m. labelsA l ks curL = Ok m"
proof (induction ks arbitrary: curL)
  case Nil
  then show ?case by simp
next
  case (Cons k ks)
  show ?case
  proof (cases "l k")
    case None
    then show ?thesis using Cons by simp
  next
    case (Some v)
    with Cons.prems have "length v = 1 \<or> length v = 2" by (simp add: wf_pairs_def)
    then obtain x where "v = [x] \<or> (\<exists>y. v = [x, y])"
      by (cases v; cases "tl v") auto
    with Some show ?thesis using Cons by auto
  qed
qed

lemma labelsB_Ok: "wf_pairs l \<Longrightarrow> \<exists>m. labelsB l ks curL = Ok m"
proof (induction ks arbitrary: curL)
  case Nil
  then show ?case by simp
next
  case (Cons k ks)
  show ?case
  proof (cases "l k")
    case None
    then show ?thesis using Cons by simp
  next
    case (Some v)
    with Cons.prems have "length v = 1 \<or> length v = 2" by (simp add: wf_pairs_def)
    then obtain x where "v = [x] \<or> (\<exists>y. v = [x, y])"
      by (cases v; cases "tl v") auto
    with Some show ?thesis using Cons by auto
  qed
qed

lemma labelsA_step:
  "labelsA l (k # ks) curL = Ok m \<Longrightarrow>
   \<exists>c. labelsA l ks c = Ok m \<and> (\<forall>k'. \<not> writes l k k' \<longrightarrow> c k' = curL k')
     \<and> (\<forall>v. l k = Some v \<longrightarrow> c k = Some (hd v))
     \<and> (\<forall>x y zs. l k = Some (x # y # zs) \<longrightarrow> c (k @ ''_far'') = Some y)"
  by (cases "l k") (auto simp: writes_def split: list.splits)

lemma labelsB_step:
  "labelsB l (k # ks) curL = Ok m \<Longrightarrow>
   \<exists>c. labelsB l ks c = Ok m \<and> (\<forall>k'. \<not> writes l k k' \<longrightarrow> c k' = curL k')
     \<and> (\<forall>x. l k = Some [x] \<longrightarrow> c k = Some x)
     \<and> (\<forall>x y zs. l k = Some (x # y # zs) \<longrightarrow> c k = Some y \<and> c (k @ ''_far'') = Some x)"
  by (cases "l k") (auto simp: writes_def split: list.splits)

text \<open>
  A key that no visited attribute writes keeps its value.
\<close>

lemma labelsA_untouched:
  "labelsA l ks curL = Ok m \<Longrightarrow> \<forall>k \<in> set ks. \<not> writes l k k' \<Longrightarrow> m k' = curL k'"
proof (induction ks arbitrary: curL)
  case Nil
  then show ?case by simp
next
  case (Cons k ks)
  from labelsA_step [OF Cons.prems(1)] obtain c
    where c: "labelsA l ks c = Ok m" "\<forall>k'. \<not> writes l k k' \<longrightarrow> c k' = curL k'"
    by blast
  from Cons.prems(2) have "m k' = c k'"
    by (intro Cons.IH [OF c(1)]) simp
  with c(2) Cons.prems(2) show ?case by simp
qed

lemma labelsB_untouched:
  "labelsB l ks curL = Ok m \<Longrightarrow> \<forall>k \<in> set ks. \<not> writes l k k' \<Longrightarrow> m k' = curL k'"
proof (induction ks arbitrary: curL)
  case Nil
  then show ?case by simp
next
  case (Cons k ks)
  from labelsB_step [OF Cons.prems(1)] obtain c
    where c: "labelsB l ks c = Ok m" "\<forall>k'. \<not> writes l k k' \<longrightarrow> c k' = curL k'"
    by blast
  from Cons.prems(2) have "m k' = c k'"
    by (intro Cons.IH [OF c(1)]) simp
  with c(2) Cons.prems(2) show ?case by simp
qed

text \<open>
  A key written by one visited attribute only, whatever the order and however often
  the attribute is visited, holds what that attribute writes.
\<close>

lemma labelsA_near:
  "labelsA l ks curL = Ok m \<Longrightarrow> k \<in> set ks \<Longrightarrow> l k = Some v \<Longrightarrow>
   \<forall>k' \<in> set ks. k' \<noteq> k \<longrightarrow> \<not> writes l k' k \<Longrightarrow> m k = Some (hd v)"
proof (induction ks arbitrary: curL)
  case Nil
  then show ?case by simp
next
  case (Cons a ks)
  from labelsA_step [OF Cons.prems(1)] obtain c
    where c: "labelsA l ks c = Ok m" "\<forall>k'. \<not> writes l a k' \<longrightarrow> c k' = curL k'"
      "\<forall>v. l a = Some v \<longrightarrow> c a = Some (hd v)"
    by blast
  show ?case
  proof (cases "k \<in> set ks")
    case True
    then show ?thesis
      using Cons.IH [OF c(1) True Cons.prems(3)] Cons.prems(4) by simp
  next
    case False
    with Cons.prems(2) have "a = k" by simp
    have "\<forall>k' \<in> set ks. \<not> writes l k' k"
      using Cons.prems(4) False by auto
    with c(1) have "m k = c k" by (rule labelsA_untouched)
    with c(3) \<open>a = k\<close> Cons.prems(3) show ?thesis by simp
  qed
qed

lemma labelsA_far:
  "labelsA l ks curL = Ok m \<Longrightarrow> k \<in> set ks \<Longrightarrow> l k = Some (x # y # zs) \<Longrightarrow>
   l (k @ ''_far'') = None \<Longrightarrow> m (k @ ''_far'') = Some y"
proof (induction ks arbitrary: curL)
  case Nil
  then show ?case by simp
next
  case (Cons a ks)
  from labelsA_step [OF Cons.prems(1)] obtain c
    where c: "labelsA l ks c = Ok m" "\<forall>k'. \<not> writes l a k' \<longrightarrow> c k' = curL k'"
      "\<forall>x y zs. l a = Some (x # y # zs) \<longrightarrow> c (a @ ''_far'') = Some y"
    by blast
  show ?case
  proof (cases "k \<in> set ks")
    case True
    then show ?thesis
      using Cons.IH [OF c(1) True Cons.prems(3,4)] by simp
  next
    case False
    with Cons.prems(2) have "a = k" by simp
    have "\<forall>k' \<in> set ks. \<not> writes l k' (k @ ''_far'')"
      using Cons.prems(3,4) False by (auto simp: writes_def)
    with c(1) have "m (k @ ''_far'') = c (k @ ''_far'')" by (rule labelsA_untouched)
    with c(3) \<open>a = k\<close> Cons.prems(3) show ?thesis by simp
  qed
qed

lemma labelsB_near:
  "labelsB l ks curL = Ok m \<Longrightarrow> k \<in> set ks \<Longrightarrow> l k = Some v \<Longrightarrow> length v = 1 \<or> length v = 2 \<Longrightarrow>
   \<forall>k' \<in> set ks. k' \<noteq> k \<longrightarrow> \<not> writes l k' k \<Longrightarrow> m k = Some (last v)"
proof (induction ks arbitrary: curL)
  case Nil
  then show ?case by simp
next
  case (Cons a ks)
  from labelsB_step [OF Cons.prems(1)] obtain c
    where c: "labelsB l ks c = Ok m" "\<forall>k'. \<not> writes l a k' \<longrightarrow> c k' = curL k'"
      "\<forall>x. l a = Some [x] \<longrightarrow> c a = Some x"
      "\<forall>x y zs. l a = Some (x # y # zs) \<longrightarrow> c a = Some y \<and> c (a @ ''_far'') = Some x"
    by blast
  show ?case
  proof (cases "k \<in> set ks")
    case True
    then show ?thesis
      using Cons.IH [OF c(1) True Cons.prems(3,4)] Cons.prems(5) by simp
  next
    case False
    with Cons.prems(2) have "a = k" by simp
    have "\<forall>k' \<in> set ks. \<not> writes l k' k"
      using Cons.prems(5) False by auto
    with c(1) have mk: "m k = c k" by (rule labelsB_untouched)
    from Cons.prems(4) obtain x where "v = [x] \<or> (\<exists>y. v = [y, x])"
      by (cases v; cases "tl v") auto
    with c(3,4) \<open>a = k\<close> Cons.prems(3) mk show ?thesis by auto
  qed
qed

lemma labelsB_far:
  "labelsB l ks curL = Ok m \<Longrightarrow> k \<in> set ks \<Longrightarrow> l k = Some (x # y # zs) \<Longrightarrow>
   l (k @ ''_far'') = None \<Longrightarrow> m (k @ ''_far'') = Some x"
proof (induction ks arbitrary: curL)
  case Nil
  then show ?case by simp
next
  case (Cons a ks)
  from labelsB_step [OF Cons.prems(1)] obtain c
    where c: "labelsB l ks c = Ok m" "\<forall>k'. \<not> writes l a k' \<longrightarrow> c k' = curL k'"
      "\<forall>x y zs. l a = Some (x # y # zs) \<longrightarrow> c a = Some y \<and> c (a @ ''_far'') = Some x"
    by blast
  show ?case
  proof (cases "k \<in> set ks")
    case True
    then show ?thesis
      using Cons.IH [OF c(1) True Cons.prems(3,4)] by simp
  next
    case False
    with Cons.prems(2) have "a = k" by simp
    have "\<forall>k' \<in> set ks. \<not> writes l k' (k @ ''_far'')"
      using Cons.prems(3,4) False by (auto simp: writes_def)
    with c(1) have "m (k @ ''_far'') = c (k @ ''_far'')" by (rule labelsB_untouched)
    with c(3) \<open>a = k\<close> Cons.prems(3) show ?thesis by simp
  qed
qed

section \<open>\<open>RenderLink\<close>\<close>

lemma renderSide_Ok:
  "renderSide env st lnk n curL = Ok res \<Longrightarrow>
   templateLabels res = curL \<and> TargetNode res = Some n \<and> source res = link_String env lnk
   \<and> templateName res = ''base-link.tmpl''"
  by (auto simp: renderSide_def RenderTemplate_def Let_def
      split: outcome.splits option.splits sum.splits)

lemma renderSide_succeeds:
  "lookup_template st (lookup0 (node.Labels n) ''clab-node-kind'') = Some t \<Longrightarrow>
   t ''base-link.tmpl'' curL = Inr out \<Longrightarrow>
   \<exists>res. renderSide env st lnk n curL = Ok res"
  by (simp add: renderSide_def RenderTemplate_def Let_def)

lemma bind_Ok: "bind m f = Ok r \<longleftrightarrow> (\<exists>x. m = Ok x \<and> f x = Ok r)"
  by (cases m) (simp_all add: bind_def)

text \<open>
  A successful \<open>RenderLink\<close> returns, as the labels of its two snippets, the
  per-side maps built from the pair mapping; and it succeeds whenever the address
  assignment does and the templates of both nodes render.
\<close>

lemma RenderLink_Ok:
  assumes "RenderLink env st lnk ordL ordA ordB = (Ok (sA, sB), warns)"
  shows "\<exists>ipA ipB. linkIPfromSystemIP env lnk = Inr (ipA, ipB)
     \<and> labelsA (fst (linkPairs env lnk ipA ipB ordL)) ordA Map.empty = Ok (templateLabels sA)
     \<and> labelsB (fst (linkPairs env lnk ipA ipB ordL)) ordB Map.empty = Ok (templateLabels sB)
     \<and> warns = snd (linkPairs env lnk ipA ipB ordL)
     \<and> TargetNode sA = Some (Node (A lnk)) \<and> TargetNode sB = Some (Node (B lnk))"
proof (cases "linkIPfromSystemIP env lnk")
  case (Inl err)
  with assms show ?thesis by (simp add: RenderLink_def)
next
  case (Inr p)
  obtain ipA ipB where p: "p = (ipA, ipB)" by (cases p) auto
  let ?l = "fst (linkPairs env lnk ipA ipB ordL)"
  from assms Inr p have r:
    "bind (labelsA ?l ordA Map.empty) (\<lambda>curL.
       bind (renderSide env st lnk (Node (A lnk)) curL) (\<lambda>resA.
       bind (labelsB ?l ordB Map.empty) (\<lambda>curL.
       bind (renderSide env st lnk (Node (B lnk)) curL) (\<lambda>res.
       Ok (resA, res))))) = Ok (sA, sB)"
    and w: "warns = snd (linkPairs env lnk ipA ipB ordL)"
    by (simp_all add: RenderLink_def case_prod_beta)
  from r obtain cA cB where
    "labelsA ?l ordA Map.empty = Ok cA" "renderSide env st lnk (Node (A lnk)) cA = Ok sA"
    "labelsB ?l ordB Map.empty = Ok cB" "renderSide env st lnk (Node (B lnk)) cB = Ok sB"
    by (auto simp: bind_Ok)
  with Inr p w show ?thesis
    by (auto dest: renderSide_Ok)
qed

lemma RenderLink_succeeds:
  assumes "linkIPfromSystemIP env lnk = Inr (ipA, ipB)"
    and "lookup_template st (lookup0 (node.Labels (Node (A lnk))) ''clab-node-kind'') = Some tA"
    and "\<forall>labels. \<exists>out. tA ''base-link.tmpl'' labels = Inr out"
    and "lookup_template st (lookup0 (node.Labels (Node (B lnk))) ''clab-node-kind'') = Some tB"
    and "\<forall>labels. \<exists>out. tB ''base-link.tmpl'' labels = Inr out"
  shows "\<exists>sA sB. RenderLink env st lnk ordL ordA ordB
            = (Ok (sA, sB), snd (linkPairs env lnk ipA ipB ordL))"
proof -
  let ?l = "fst (linkPairs env lnk ipA ipB ordL)"
  have wf: "wf_pairs ?l" by (rule wf_pairs_linkPairs)
  from labelsA_Ok [OF wf] obtain cA where cA: "labelsA ?l ordA Map.empty = Ok cA" by blast
  from labelsB_Ok [OF wf] obtain cB where cB: "labelsB ?l ordB Map.empty = Ok cB" by blast
  from assms(3) obtain outA where "tA ''base-link.tmpl'' cA = Inr outA" by blast
  with assms(2) obtain sA where sA: "renderSide env st lnk (Node (A lnk)) cA = Ok sA"
    using renderSide_succeeds by blast
  from assms(5) obtain outB where "tB ''base-link.tmpl'' cB = Inr outB" by blast
  with assms(4) obtain sB where sB: "renderSide env st lnk (Node (B lnk)) cB = Ok sB"
    using renderSide_succeeds by blast
  have "RenderLink env st lnk ordL ordA ordB = (Ok (sA, sB), snd (linkPairs env lnk ipA ipB ordL))"
    using assms(1) cA cB sA sB by (simp add: RenderLink_def case_prod_beta bind_def)
  then show ?thesis by blast
qed

lemma no_far_name: "k @ ''_far'' \<noteq> ''name''"
proof
  assume "k @ ''_far'' = ''name''"
  then have "last (k @ ''_far'') = last ''name''" by simp
  then show False by simp
qed

lemma far_neq_literal: "last s \<noteq> CHR ''r'' \<Longrightarrow> k @ ''_far'' \<noteq> s"
  by auto

subsection \<open>\<open>RenderLink\<close> on the example link\<close>

lemma renderSide_ex:
  "renderSide ex_env ex_store lnk (ex_node n s) curL =
     Ok \<lparr>TargetNode = Some (ex_node n s), templateName = ''base-link.tmpl'',
         source = ''r1:e1 <-> r2:e1'', templateLabels = curL,
         Config = scan (''interface '' @ lookup0 curL ''name'' @ [CHR 0x0A])\<rparr>"
  by (simp add: renderSide_def RenderTemplate_def ex_node_simps ex_store_srl ex_env_simps
      ex_template_def)

lemma RenderLink_ex:
  assumes "linkPairs ex_env (ex_link L) ''10.0.0.0'' ''10.0.0.1'' ordL = (l, warns)"
    and "labelsA l ordA Map.empty = Ok cA" and "labelsB l ordB Map.empty = Ok cB"
  shows "RenderLink ex_env ex_store (ex_link L) ordL ordA ordB =
     (Ok (\<lparr>TargetNode = Some (ex_node ''r1'' ''10.1.1.1/32''), templateName = ''base-link.tmpl'',
            source = ''r1:e1 <-> r2:e1'', templateLabels = cA,
            Config = scan (''interface '' @ lookup0 cA ''name'' @ [CHR 0x0A])\<rparr>,
          \<lparr>TargetNode = Some (ex_node ''r2'' ''10.1.1.2/32''), templateName = ''base-link.tmpl'',
            source = ''r1:e1 <-> r2:e1'', templateLabels = cB,
            Config = scan (''interface '' @ lookup0 cB ''name'' @ [CHR 0x0A])\<rparr>), warns)"
  using assms
  by (simp add: RenderLink_def ex_env_simps ex_link_simps renderSide_ex bind_def)

lemma linkPairs_ex:
  "linkPairs ex_env (ex_link L) ipA ipB ordL =
     (let (l, warns) = splitLabels ''r1:e1 <-> r2:e1'' L ordL
            ([''ip'' \<mapsto> [ipA, ipB], ''systemip'' \<mapsto> [''10.1.1.1/32'', ''10.1.1.2/32'']], [])
      in (defaultName (ex_link L) l, warns))"
  by (simp add: linkPairs_def labelPairs_def ex_env_simps ex_link_simps ex_node_simps)

lemma defaultName_ex:
  "defaultName (ex_link L) l =
     (case l ''name'' of Some v \<Rightarrow> l
      | None \<Rightarrow> l(''name'' \<mapsto> [''to_r2'' @ (if lookup0 L ''linkNr'' = [] then [] else ''_'' @ lookup0 L ''linkNr''),
                            ''to_r1'' @ (if lookup0 L ''linkNr'' = [] then [] else ''_'' @ lookup0 L ''linkNr'')]))"
  by (cases "lookup0 L ''linkNr'' = []")
     (simp_all add: defaultName_def ex_link_simps ex_node_simps Let_def split: option.splits)

subsection \<open>Default names\<close>

text \<open>
  C6. When the pair mapping has no \<open>name\<close> key after the loop over the labels, it
  gets the two default names under \<open>name\<close>, and a successful \<open>RenderLink\<close> gives
  side A the name \<open>to_\<close> followed by the short name of B's node, and side B the name
  \<open>to_\<close> followed by the short name of A's node; when the link's \<open>linkNr\<close> label is
  not empty, both names end with an underscore and that value, and they have no suffix
  otherwise. This holds for every order in which the per-side loops visit the pair
  mapping.
\<close>

theorem RenderLink_default_names:
  assumes "RenderLink env st lnk ordL ordA ordB = (Ok (sA, sB), warns)"
    and "linkIPfromSystemIP env lnk = Inr (ipA, ipB)"
    and "fst (labelPairs env lnk ipA ipB ordL) ''name'' = None"
    and "range_order (fst (linkPairs env lnk ipA ipB ordL)) ordA"
    and "range_order (fst (linkPairs env lnk ipA ipB ordL)) ordB"
  shows "(let linkNr = lookup0 (link.Labels lnk) ''linkNr'';
              suffix = (if linkNr = [] then [] else ''_'' @ linkNr)
          in fst (linkPairs env lnk ipA ipB ordL) ''name''
               = Some [''to_'' @ ShortName (Node (B lnk)) @ suffix,
                       ''to_'' @ ShortName (Node (A lnk)) @ suffix]
             \<and> templateLabels sA ''name'' = Some (''to_'' @ ShortName (Node (B lnk)) @ suffix)
             \<and> templateLabels sB ''name'' = Some (''to_'' @ ShortName (Node (A lnk)) @ suffix))"
proof -
  let ?l = "fst (linkPairs env lnk ipA ipB ordL)"
  let ?nr = "lookup0 (link.Labels lnk) ''linkNr''"
  let ?suffix = "if ?nr = [] then [] else ''_'' @ ?nr"
  let ?v = "[''to_'' @ ShortName (Node (B lnk)) @ ?suffix, ''to_'' @ ShortName (Node (A lnk)) @ ?suffix]"
  from RenderLink_Ok [OF assms(1)] assms(2)
  have a: "labelsA ?l ordA Map.empty = Ok (templateLabels sA)"
    and b: "labelsB ?l ordB Map.empty = Ok (templateLabels sB)"
    by auto
  have name: "?l ''name'' = Some ?v"
    using linkPairs_name_default [OF assms(3)] by (simp add: Let_def)
  have single: "\<forall>k' \<in> set ks. k' \<noteq> ''name'' \<longrightarrow> \<not> writes ?l k' ''name''" for ks
    by (simp add: writes_def no_far_name)
  have "templateLabels sA ''name'' = Some (hd ?v)"
    using a range_order_mem [OF assms(4) name] name single by (rule labelsA_near)
  moreover have "templateLabels sB ''name'' = Some (last ?v)"
    using b range_order_mem [OF assms(5) name] name _ single by (rule labelsB_near) simp
  ultimately show ?thesis using name by (simp add: Let_def)
qed

theorem RenderLink_default_names_witness:
  "\<exists>sA sB. RenderLink ex_env ex_store (ex_link [''linkNr'' \<mapsto> ''3'']) [''linkNr'']
        [''name'', ''linkNr'', ''systemip'', ''ip''] [''ip'', ''systemip'', ''linkNr'', ''name'']
      = (Ok (sA, sB), [])
    \<and> templateLabels sA ''name'' = Some ''to_r2_3'' \<and> templateLabels sB ''name'' = Some ''to_r1_3''"
proof -
  let ?L = "[''linkNr'' \<mapsto> ''3'']"
  let ?l = "[''ip'' \<mapsto> [''10.0.0.0'', ''10.0.0.1''],
             ''systemip'' \<mapsto> [''10.1.1.1/32'', ''10.1.1.2/32''],
             ''linkNr'' \<mapsto> [''3''], ''name'' \<mapsto> [''to_r2_3'', ''to_r1_3'']]"
  have p: "linkPairs ex_env (ex_link ?L) ''10.0.0.0'' ''10.0.0.1'' [''linkNr''] = (?l, [])"
    by (simp add: linkPairs_ex defaultName_ex lookup0_def)
  have q: "fst (labelPairs ex_env (ex_link ?L) ''10.0.0.0'' ''10.0.0.1'' [''linkNr'']) ''name'' = None"
    by (simp add: labelPairs_lookup ex_link_simps)
  from labelsA_Ok [of ?l] labelsB_Ok [of ?l] obtain cA cB
    where c: "labelsA ?l [''name'', ''linkNr'', ''systemip'', ''ip''] Map.empty = Ok cA"
      "labelsB ?l [''ip'', ''systemip'', ''linkNr'', ''name''] Map.empty = Ok cB"
    by (auto simp: wf_pairs_def)
  note r = RenderLink_ex [OF p c]
  have oA: "range_order ?l [''name'', ''linkNr'', ''systemip'', ''ip'']"
    and oB: "range_order ?l [''ip'', ''systemip'', ''linkNr'', ''name'']"
    by (auto simp: range_order_def)
  from RenderLink_default_names [OF r ex_env_simps(1) q] oA oB p
  show ?thesis
    unfolding r by (simp add: ex_link_simps ex_node_simps lookup0_def Let_def)
qed

subsection \<open>Near and far values\<close>

text \<open>
  C1, amended. For an attribute \<open>k\<close> of the pair mapping with the values \<open>v\<close>, in a
  successful \<open>RenderLink\<close>: provided \<open>k\<close> is not the far key (\<open>k'_far\<close>) of an
  attribute \<open>k'\<close> with two values, each side gets its own value under \<open>k\<close> (the same
  one for a single value; the first for A and the second for B otherwise); and provided
  \<open>k_far\<close> is not itself an attribute of the pair mapping, the sides get the peer's
  value under \<open>k_far\<close> when \<open>k\<close> has two values and no key \<open>k_far\<close> when it has one.
\<close>

theorem RenderLink_near_far:
  assumes "RenderLink env st lnk ordL ordA ordB = (Ok (sA, sB), warns)"
    and "linkIPfromSystemIP env lnk = Inr (ipA, ipB)"
    and "range_order (fst (linkPairs env lnk ipA ipB ordL)) ordA"
    and "range_order (fst (linkPairs env lnk ipA ipB ordL)) ordB"
    and "fst (linkPairs env lnk ipA ipB ordL) k = Some v"
  shows "((\<forall>k' w. fst (linkPairs env lnk ipA ipB ordL) k' = Some w \<and> k' @ ''_far'' = k
                  \<longrightarrow> length w = 1) \<longrightarrow>
            (\<forall>x. v = [x] \<longrightarrow> templateLabels sA k = Some x \<and> templateLabels sB k = Some x)
            \<and> (\<forall>x y. v = [x, y] \<longrightarrow> templateLabels sA k = Some x \<and> templateLabels sB k = Some y))
       \<and> (fst (linkPairs env lnk ipA ipB ordL) (k @ ''_far'') = None \<longrightarrow>
            (\<forall>x. v = [x] \<longrightarrow> templateLabels sA (k @ ''_far'') = None
                              \<and> templateLabels sB (k @ ''_far'') = None)
            \<and> (\<forall>x y. v = [x, y] \<longrightarrow> templateLabels sA (k @ ''_far'') = Some y
                                   \<and> templateLabels sB (k @ ''_far'') = Some x))"
proof -
  define l where "l = fst (linkPairs env lnk ipA ipB ordL)"
  note assms' = assms(1,2) l_def assms(3-5) [folded l_def]
  from RenderLink_Ok [OF assms'(1)] assms'(2,3)
  have a: "labelsA l ordA Map.empty = Ok (templateLabels sA)"
    and b: "labelsB l ordB Map.empty = Ok (templateLabels sB)"
    by auto
  have wf: "wf_pairs l" unfolding assms'(3) by (rule wf_pairs_linkPairs)
  then have len: "length v = 1 \<or> length v = 2"
    using assms'(6) by (simp add: wf_pairs_def)
  have kA: "k \<in> set ordA" and kB: "k \<in> set ordB"
    using assms'(4,5,6) by (auto dest: range_order_mem)
  have near: "templateLabels sA k = Some (hd v) \<and> templateLabels sB k = Some (last v)"
    if n: "\<forall>k' w. l k' = Some w \<and> k' @ ''_far'' = k \<longrightarrow> length w = 1"
  proof -
    have single: "\<forall>k' \<in> set ks. k' \<noteq> k \<longrightarrow> \<not> writes l k' k" for ks
      using n by (auto simp: writes_def)
    have "templateLabels sA k = Some (hd v)"
      using a kA assms'(6) single by (rule labelsA_near)
    moreover have "templateLabels sB k = Some (last v)"
      using b kB assms'(6) len single by (rule labelsB_near)
    ultimately show ?thesis by simp
  qed
  have far1: "templateLabels sA (k @ ''_far'') = None \<and> templateLabels sB (k @ ''_far'') = None"
    if f: "l (k @ ''_far'') = None" and v: "v = [x]" for x
  proof -
    have none: "\<forall>k' \<in> set ks. \<not> writes l k' (k @ ''_far'')" for ks
      using f v assms'(6) by (auto simp: writes_def)
    have "templateLabels sA (k @ ''_far'') = Map.empty (k @ ''_far'')"
      using a none by (rule labelsA_untouched)
    moreover have "templateLabels sB (k @ ''_far'') = Map.empty (k @ ''_far'')"
      using b none by (rule labelsB_untouched)
    ultimately show ?thesis by simp
  qed
  have far2: "templateLabels sA (k @ ''_far'') = Some y \<and> templateLabels sB (k @ ''_far'') = Some x"
    if f: "l (k @ ''_far'') = None" and v: "v = [x, y]" for x y
  proof -
    from assms'(6) v have lk: "l k = Some (x # y # [])" by simp
    have "templateLabels sA (k @ ''_far'') = Some y"
      using a kA lk f by (rule labelsA_far)
    moreover have "templateLabels sB (k @ ''_far'') = Some x"
      using b kB lk f by (rule labelsB_far)
    ultimately show ?thesis by simp
  qed
  show ?thesis
    unfolding l_def [symmetric] using near far1 far2 by auto
qed

theorem RenderLink_near_far_witness:
  "\<exists>sA sB. RenderLink ex_env ex_store (ex_link [''vlan'' \<mapsto> ''10,20'', ''mtu'' \<mapsto> ''1500''])
        [''vlan'', ''mtu''] [''name'', ''mtu'', ''vlan'', ''systemip'', ''ip'']
        [''ip'', ''systemip'', ''vlan'', ''mtu'', ''name'']
      = (Ok (sA, sB), [])
    \<and> templateLabels sA ''vlan'' = Some ''10'' \<and> templateLabels sA ''vlan_far'' = Some ''20''
    \<and> templateLabels sB ''vlan'' = Some ''20'' \<and> templateLabels sB ''vlan_far'' = Some ''10''
    \<and> templateLabels sA ''mtu'' = Some ''1500'' \<and> templateLabels sA ''mtu_far'' = None
    \<and> templateLabels sB ''mtu'' = Some ''1500'' \<and> templateLabels sB ''mtu_far'' = None"
proof -
  let ?L = "[''vlan'' \<mapsto> ''10,20'', ''mtu'' \<mapsto> ''1500'']"
  let ?l = "[''ip'' \<mapsto> [''10.0.0.0'', ''10.0.0.1''],
             ''systemip'' \<mapsto> [''10.1.1.1/32'', ''10.1.1.2/32''],
             ''vlan'' \<mapsto> [''10'', ''20''], ''mtu'' \<mapsto> [''1500''],
             ''name'' \<mapsto> [''to_r2'', ''to_r1'']]"
  have p: "linkPairs ex_env (ex_link ?L) ''10.0.0.0'' ''10.0.0.1'' [''vlan'', ''mtu''] = (?l, [])"
    by (simp add: linkPairs_ex defaultName_ex lookup0_def)
  have wf: "wf_pairs ?l"
    by (simp add: wf_pairs_def)
  from labelsA_Ok [OF wf] obtain cA
    where cA: "labelsA ?l [''name'', ''mtu'', ''vlan'', ''systemip'', ''ip''] Map.empty = Ok cA"
    by blast
  from labelsB_Ok [OF wf] obtain cB
    where cB: "labelsB ?l [''ip'', ''systemip'', ''vlan'', ''mtu'', ''name''] Map.empty = Ok cB"
    by blast
  note r = RenderLink_ex [OF p cA cB]
  let ?P = "fst (linkPairs ex_env (ex_link ?L) ''10.0.0.0'' ''10.0.0.1'' [''vlan'', ''mtu''])"
  have v: "?P ''vlan'' = Some [''10'', ''20'']" by (simp add: p)
  have n: "\<forall>k' w. ?P k' = Some w \<and> k' @ ''_far'' = ''vlan'' \<longrightarrow> length w = 1"
    by (simp add: far_neq_literal)
  have f: "?P (''vlan'' @ ''_far'') = None" by (simp add: p)
  have oA: "range_order ?P [''name'', ''mtu'', ''vlan'', ''systemip'', ''ip'']"
    and oB: "range_order ?P [''ip'', ''systemip'', ''vlan'', ''mtu'', ''name'']"
    by (auto simp: p range_order_def)
  note th = RenderLink_near_far [OF r ex_env_simps(1) oA oB v]
  note near = th [THEN conjunct1, THEN mp, OF n, THEN conjunct2, THEN spec, THEN spec, THEN mp, OF refl]
  note far = th [THEN conjunct2, THEN mp, OF f, THEN conjunct2, THEN spec, THEN spec, THEN mp, OF refl]
  have v': "?P ''mtu'' = Some [''1500'']" by (simp add: p)
  have n': "\<forall>k' w. ?P k' = Some w \<and> k' @ ''_far'' = ''mtu'' \<longrightarrow> length w = 1"
    by (simp add: far_neq_literal)
  have f': "?P (''mtu'' @ ''_far'') = None" by (simp add: p)
  note th' = RenderLink_near_far [OF r ex_env_simps(1) oA oB v']
  note near' = th' [THEN conjunct1, THEN mp, OF n', THEN conjunct1, THEN spec, THEN mp, OF refl]
  note far' = th' [THEN conjunct2, THEN mp, OF f', THEN conjunct1, THEN spec, THEN mp, OF refl]
  from near far near' far' r show ?thesis by simp
qed

text \<open>
  C1 as stated fails: with the link labels \<open>mtu = 1500\<close> and \<open>mtu_far = 9000\<close> the
  attribute \<open>mtu\<close> has a single value, and both sides get a key \<open>mtu_far\<close> all the same.
\<close>

theorem RenderLink_near_far_counterexample:
  "RenderLink ex_env ex_store (ex_link [''mtu'' \<mapsto> ''1500'', ''mtu_far'' \<mapsto> ''9000''])
     [''mtu'', ''mtu_far''] [''ip'', ''systemip'', ''mtu'', ''mtu_far'', ''name'']
     [''ip'', ''systemip'', ''mtu'', ''mtu_far'', ''name'']
   = (Ok (\<lparr>TargetNode = Some (ex_node ''r1'' ''10.1.1.1/32''), templateName = ''base-link.tmpl'',
            source = ''r1:e1 <-> r2:e1'',
            templateLabels = [''ip'' \<mapsto> ''10.0.0.0'', ''ip_far'' \<mapsto> ''10.0.0.1'',
              ''systemip'' \<mapsto> ''10.1.1.1/32'', ''systemip_far'' \<mapsto> ''10.1.1.2/32'',
              ''mtu'' \<mapsto> ''1500'', ''mtu_far'' \<mapsto> ''9000'',
              ''name'' \<mapsto> ''to_r2'', ''name_far'' \<mapsto> ''to_r1''],
            Config = [''interface to_r2'']\<rparr>,
           \<lparr>TargetNode = Some (ex_node ''r2'' ''10.1.1.2/32''), templateName = ''base-link.tmpl'',
            source = ''r1:e1 <-> r2:e1'',
            templateLabels = [''ip'' \<mapsto> ''10.0.0.1'', ''ip_far'' \<mapsto> ''10.0.0.0'',
              ''systemip'' \<mapsto> ''10.1.1.2/32'', ''systemip_far'' \<mapsto> ''10.1.1.1/32'',
              ''mtu'' \<mapsto> ''1500'', ''mtu_far'' \<mapsto> ''9000'',
              ''name'' \<mapsto> ''to_r1'', ''name_far'' \<mapsto> ''to_r2''],
            Config = [''interface to_r1'']\<rparr>), [])"
proof -
  let ?l = "[''ip'' \<mapsto> [''10.0.0.0'', ''10.0.0.1''],
          ''systemip'' \<mapsto> [''10.1.1.1/32'', ''10.1.1.2/32''],
          ''mtu'' \<mapsto> [''1500''], ''mtu_far'' \<mapsto> [''9000''],
          ''name'' \<mapsto> [''to_r2'', ''to_r1'']]"
  let ?cA = "[''ip'' \<mapsto> ''10.0.0.0'', ''ip_far'' \<mapsto> ''10.0.0.1'',
              ''systemip'' \<mapsto> ''10.1.1.1/32'', ''systemip_far'' \<mapsto> ''10.1.1.2/32'',
              ''mtu'' \<mapsto> ''1500'', ''mtu_far'' \<mapsto> ''9000'',
              ''name'' \<mapsto> ''to_r2'', ''name_far'' \<mapsto> ''to_r1'']"
  let ?cB = "[''ip'' \<mapsto> ''10.0.0.1'', ''ip_far'' \<mapsto> ''10.0.0.0'',
              ''systemip'' \<mapsto> ''10.1.1.2/32'', ''systemip_far'' \<mapsto> ''10.1.1.1/32'',
              ''mtu'' \<mapsto> ''1500'', ''mtu_far'' \<mapsto> ''9000'',
              ''name'' \<mapsto> ''to_r1'', ''name_far'' \<mapsto> ''to_r2'']"
  have p: "linkPairs ex_env (ex_link [''mtu'' \<mapsto> ''1500'', ''mtu_far'' \<mapsto> ''9000''])
       ''10.0.0.0'' ''10.0.0.1'' [''mtu'', ''mtu_far''] = (?l, [])"
    by (simp add: linkPairs_ex defaultName_ex lookup0_def)
  have a: "labelsA ?l [''ip'', ''systemip'', ''mtu'', ''mtu_far'', ''name''] Map.empty = Ok ?cA"
    by simp
  have b: "labelsB ?l [''ip'', ''systemip'', ''mtu'', ''mtu_far'', ''name''] Map.empty = Ok ?cB"
    by simp
  have na: "lookup0 ?cA ''name'' = ''to_r2''" and nb: "lookup0 ?cB ''name'' = ''to_r1''"
    by (simp_all add: lookup0_def)
  show ?thesis
    unfolding RenderLink_ex [OF p a b] na nb
    by (simp add: scan.simps dropCR_def MaxScanTokenSize_def)
qed

subsection \<open>Labels with three or more values\<close>

text \<open>
  A successful rendering returns the labels it was given; \<open>RenderLink\<close> returns the
  warnings of the loop over the labels whatever the renderings do; and it succeeds as
  soon as the two renderings of the link, each on its side's label map, succeed.
\<close>

lemma RenderTemplate_Ok_labels:
  "RenderTemplate st kind name labels = Ok res \<Longrightarrow> templateLabels res = labels"
  by (auto simp: RenderTemplate_def split: option.splits sum.splits)

lemma RenderLink_warns:
  "linkIPfromSystemIP env lnk = Inr (ipA, ipB) \<Longrightarrow>
   snd (RenderLink env st lnk ordL ordA ordB) = snd (linkPairs env lnk ipA ipB ordL)"
  by (simp add: RenderLink_def case_prod_beta)

lemma RenderLink_renders:
  assumes "linkIPfromSystemIP env lnk = Inr (ipA, ipB)"
    and "labelsA (fst (linkPairs env lnk ipA ipB ordL)) ordA Map.empty = Ok cA"
    and "labelsB (fst (linkPairs env lnk ipA ipB ordL)) ordB Map.empty = Ok cB"
    and "RenderTemplate st (lookup0 (node.Labels (Node (A lnk))) ''clab-node-kind'')
           ''base-link.tmpl'' cA = Ok resA"
    and "RenderTemplate st (lookup0 (node.Labels (Node (B lnk))) ''clab-node-kind'')
           ''base-link.tmpl'' cB = Ok resB"
  shows "RenderLink env st lnk ordL ordA ordB =
           (Ok (resA\<lparr>source := link_String env lnk, TargetNode := Some (Node (A lnk))\<rparr>,
                resB\<lparr>source := link_String env lnk, TargetNode := Some (Node (B lnk))\<rparr>),
            snd (linkPairs env lnk ipA ipB ordL))"
  using assms by (simp add: RenderLink_def case_prod_beta bind_def renderSide_def Let_def)

lemma RenderTemplate_ex:
  "RenderTemplate ex_store ''srl'' ''base-link.tmpl'' labels =
     Ok \<lparr>TargetNode = None, templateName = ''base-link.tmpl'', source = [],
         templateLabels = labels,
         Config = scan (''interface '' @ lookup0 labels ''name'' @ [CHR 0x0A])\<rparr>"
  by (simp add: RenderTemplate_def ex_store_srl ex_template_def)

text \<open>
  C5, amended. For a link label \<open>k\<close> whose split has three or more tokens (the split
  never has none), when the address assignment succeeds: both per-side label maps are
  built; a warning naming \<open>k\<close>, the number of tokens and the value is among the warnings
  \<open>RenderLink\<close> logs; the label is not entered in the pair mapping, which after the loop
  over the labels has no entry at \<open>k\<close> unless \<open>k\<close> is \<open>ip\<close> or \<open>systemip\<close>; \<open>k\<close> is
  absent from both sides' label maps provided it is none of \<open>ip\<close>, \<open>systemip\<close> and
  \<open>name\<close> (which have computed or default values) and is not the far key of an
  attribute with two values; and \<open>RenderLink\<close> succeeds, returning snippets with these
  label maps, whenever the two template renderings of this link succeed.
\<close>

theorem RenderLink_skips_other_arity:
  assumes "linkIPfromSystemIP env lnk = Inr (ipA, ipB)"
    and "link.Labels lnk k = Some v" and "2 < length (Split v CHR '','')"
    and "range_order (link.Labels lnk) ordL"
  shows "\<exists>cA cB warns.
       labelsA (fst (linkPairs env lnk ipA ipB ordL)) ordA Map.empty = Ok cA
     \<and> labelsB (fst (linkPairs env lnk ipA ipB ordL)) ordB Map.empty = Ok cB
     \<and> snd (RenderLink env st lnk ordL ordA ordB) = warns
     \<and> Warnf (link_String env lnk) k (length (Split v CHR '','')) v \<in> set warns
     \<and> (k \<noteq> ''ip'' \<and> k \<noteq> ''systemip'' \<longrightarrow> fst (labelPairs env lnk ipA ipB ordL) k = None)
     \<and> (k \<noteq> ''ip'' \<and> k \<noteq> ''systemip'' \<and> k \<noteq> ''name''
        \<and> (\<forall>k' w. fst (linkPairs env lnk ipA ipB ordL) k' = Some w \<and> k' @ ''_far'' = k
                   \<longrightarrow> length w = 1)
        \<longrightarrow> cA k = None \<and> cB k = None)
     \<and> (\<forall>resA resB.
           RenderTemplate st (lookup0 (node.Labels (Node (A lnk))) ''clab-node-kind'')
             ''base-link.tmpl'' cA = Ok resA
           \<and> RenderTemplate st (lookup0 (node.Labels (Node (B lnk))) ''clab-node-kind'')
             ''base-link.tmpl'' cB = Ok resB
           \<longrightarrow> (\<exists>sA sB. RenderLink env st lnk ordL ordA ordB = (Ok (sA, sB), warns)
                   \<and> templateLabels sA = cA \<and> templateLabels sB = cB))"
proof -
  let ?l = "fst (linkPairs env lnk ipA ipB ordL)"
  let ?w = "snd (linkPairs env lnk ipA ipB ordL)"
  have wf: "wf_pairs ?l" by (rule wf_pairs_linkPairs)
  from labelsA_Ok [OF wf] obtain cA where a: "labelsA ?l ordA Map.empty = Ok cA" by blast
  from labelsB_Ok [OF wf] obtain cB where b: "labelsB ?l ordB Map.empty = Ok cB" by blast
  have s: "snd (RenderLink env st lnk ordL ordA ordB) = ?w"
    using assms(1) by (rule RenderLink_warns)
  have kL: "k \<in> set ordL" using assms(4,2) by (rule range_order_mem)
  have w: "Warnf (link_String env lnk) k (length (Split v CHR '','')) v \<in> set ?w"
    unfolding linkPairs_warns labelPairs_def Let_def
    using kL assms(2,3) by (rule splitLabels_warns)
  have none: "fst (labelPairs env lnk ipA ipB ordL) k = None"
    if "k \<noteq> ''ip''" "k \<noteq> ''systemip''"
    using that kL assms(2,3) by (simp add: labelPairs_lookup Let_def)
  have absent: "cA k = None \<and> cB k = None"
    if k: "k \<noteq> ''ip''" "k \<noteq> ''systemip''" "k \<noteq> ''name''"
      and n: "\<forall>k' w. ?l k' = Some w \<and> k' @ ''_far'' = k \<longrightarrow> length w = 1"
  proof -
    have "?l k = None" using none k by (simp add: linkPairs_other)
    with n have nw: "\<forall>k' \<in> set ks. \<not> writes ?l k' k" for ks
      by (auto simp: writes_def)
    have "cA k = Map.empty k" using a nw by (rule labelsA_untouched)
    moreover have "cB k = Map.empty k" using b nw by (rule labelsB_untouched)
    ultimately show ?thesis by simp
  qed
  have render: "\<exists>sA sB. RenderLink env st lnk ordL ordA ordB = (Ok (sA, sB), ?w)
      \<and> templateLabels sA = cA \<and> templateLabels sB = cB"
    if rA: "RenderTemplate st (lookup0 (node.Labels (Node (A lnk))) ''clab-node-kind'')
             ''base-link.tmpl'' cA = Ok resA"
      and rB: "RenderTemplate st (lookup0 (node.Labels (Node (B lnk))) ''clab-node-kind'')
             ''base-link.tmpl'' cB = Ok resB"
    for resA resB
    using RenderLink_renders [OF assms(1) a b rA rB]
      RenderTemplate_Ok_labels [OF rA] RenderTemplate_Ok_labels [OF rB]
    by simp
  show ?thesis
    using a b s w none absent render by blast
qed

theorem RenderLink_skips_other_arity_witness:
  "\<exists>sA sB warns. RenderLink ex_env ex_store (ex_link [''ports'' \<mapsto> ''1,2,3'']) [''ports'']
        [''ip'', ''systemip'', ''name''] [''name'', ''systemip'', ''ip'']
      = (Ok (sA, sB), warns)
    \<and> ''r1:e1 <-> r2:e1: ports contains 3 elements: 1,2,3'' \<in> set warns
    \<and> fst (labelPairs ex_env (ex_link [''ports'' \<mapsto> ''1,2,3'']) ''10.0.0.0'' ''10.0.0.1'' [''ports''])
        ''ports'' = None
    \<and> templateLabels sA ''ports'' = None \<and> templateLabels sB ''ports'' = None"
proof -
  let ?L = "[''ports'' \<mapsto> ''1,2,3'']"
  let ?P = "fst (linkPairs ex_env (ex_link ?L) ''10.0.0.0'' ''10.0.0.1'' [''ports''])"
  have lab: "link.Labels (ex_link ?L) ''ports'' = Some ''1,2,3''"
    by (simp add: ex_link_simps)
  have bad: "2 < length (Split ''1,2,3'' CHR '','')" by simp
  have o: "range_order (link.Labels (ex_link ?L)) [''ports'']"
    by (simp add: range_order_def ex_link_simps)
  have nf: "\<forall>k' w. ?P k' = Some w \<and> k' @ ''_far'' = ''ports'' \<longrightarrow> length w = 1"
    by (simp add: far_neq_literal)
  have kA: "lookup0 (node.Labels (Node (A (ex_link ?L)))) ''clab-node-kind'' = ''srl''"
    and kB: "lookup0 (node.Labels (Node (B (ex_link ?L)))) ''clab-node-kind'' = ''srl''"
    by (simp_all add: ex_link_simps ex_node_simps)
  from RenderLink_skips_other_arity [OF ex_env_simps(1) lab bad o,
      of "[''ip'', ''systemip'', ''name'']" "[''name'', ''systemip'', ''ip'']" ex_store]
  obtain cA cB warns where r:
    "Warnf (link_String ex_env (ex_link ?L)) ''ports'' (length (Split ''1,2,3'' CHR '','')) ''1,2,3''
       \<in> set warns"
    "''ports'' \<noteq> ''ip'' \<and> ''ports'' \<noteq> ''systemip'' \<longrightarrow>
       fst (labelPairs ex_env (ex_link ?L) ''10.0.0.0'' ''10.0.0.1'' [''ports'']) ''ports'' = None"
    "''ports'' \<noteq> ''ip'' \<and> ''ports'' \<noteq> ''systemip'' \<and> ''ports'' \<noteq> ''name''
     \<and> (\<forall>k' w. ?P k' = Some w \<and> k' @ ''_far'' = ''ports'' \<longrightarrow> length w = 1)
     \<longrightarrow> cA ''ports'' = None \<and> cB ''ports'' = None"
    "\<forall>resA resB.
       RenderTemplate ex_store (lookup0 (node.Labels (Node (A (ex_link ?L)))) ''clab-node-kind'')
         ''base-link.tmpl'' cA = Ok resA
       \<and> RenderTemplate ex_store (lookup0 (node.Labels (Node (B (ex_link ?L)))) ''clab-node-kind'')
         ''base-link.tmpl'' cB = Ok resB
       \<longrightarrow> (\<exists>sA sB. RenderLink ex_env ex_store (ex_link ?L) [''ports''] [''ip'', ''systemip'', ''name'']
                 [''name'', ''systemip'', ''ip''] = (Ok (sA, sB), warns)
               \<and> templateLabels sA = cA \<and> templateLabels sB = cB)"
    by blast
  from r(4) [unfolded kA kB, THEN spec, THEN spec, THEN mp, OF conjI, OF RenderTemplate_ex RenderTemplate_ex]
  obtain sA sB where s:
    "RenderLink ex_env ex_store (ex_link ?L) [''ports''] [''ip'', ''systemip'', ''name'']
       [''name'', ''systemip'', ''ip''] = (Ok (sA, sB), warns)"
    "templateLabels sA = cA" "templateLabels sB = cB"
    by blast
  have w: "Warnf (link_String ex_env (ex_link ?L)) ''ports'' (length (Split ''1,2,3'' CHR '','')) ''1,2,3''
      = ''r1:e1 <-> r2:e1: ports contains 3 elements: 1,2,3''"
    by (simp add: Warnf_def ex_env_simps)
  from r(2) have 3: "fst (labelPairs ex_env (ex_link ?L) ''10.0.0.0'' ''10.0.0.1'' [''ports'']) ''ports'' = None"
    by simp
  from r(3) nf have 4: "cA ''ports'' = None \<and> cB ''ports'' = None"
    by simp
  from s r(1) [unfolded w] 3 4 show ?thesis by auto
qed

text \<open>
  C5 as stated fails: the link label \<open>name = a,b,c\<close> has three tokens, the warning
  is logged, and the key \<open>name\<close> is present on both sides, with the default names.
\<close>

theorem RenderLink_name_label_counterexample:
  "RenderLink ex_env ex_store (ex_link [''name'' \<mapsto> ''a,b,c'']) [''name'']
        [''ip'', ''systemip'', ''name''] [''ip'', ''systemip'', ''name'']
     = (Ok (\<lparr>TargetNode = Some (ex_node ''r1'' ''10.1.1.1/32''), templateName = ''base-link.tmpl'',
              source = ''r1:e1 <-> r2:e1'',
              templateLabels = [''ip'' \<mapsto> ''10.0.0.0'', ''ip_far'' \<mapsto> ''10.0.0.1'',
                ''systemip'' \<mapsto> ''10.1.1.1/32'', ''systemip_far'' \<mapsto> ''10.1.1.2/32'',
                ''name'' \<mapsto> ''to_r2'', ''name_far'' \<mapsto> ''to_r1''],
              Config = [''interface to_r2'']\<rparr>,
             \<lparr>TargetNode = Some (ex_node ''r2'' ''10.1.1.2/32''), templateName = ''base-link.tmpl'',
              source = ''r1:e1 <-> r2:e1'',
              templateLabels = [''ip'' \<mapsto> ''10.0.0.1'', ''ip_far'' \<mapsto> ''10.0.0.0'',
                ''systemip'' \<mapsto> ''10.1.1.2/32'', ''systemip_far'' \<mapsto> ''10.1.1.1/32'',
                ''name'' \<mapsto> ''to_r1'', ''name_far'' \<mapsto> ''to_r2''],
              Config = [''interface to_r1'']\<rparr>),
        [''r1:e1 <-> r2:e1: name contains 3 elements: a,b,c''])"
proof -
  let ?l = "[''ip'' \<mapsto> [''10.0.0.0'', ''10.0.0.1''],
             ''systemip'' \<mapsto> [''10.1.1.1/32'', ''10.1.1.2/32''],
             ''name'' \<mapsto> [''to_r2'', ''to_r1'']]"
  let ?cA = "[''ip'' \<mapsto> ''10.0.0.0'', ''ip_far'' \<mapsto> ''10.0.0.1'',
              ''systemip'' \<mapsto> ''10.1.1.1/32'', ''systemip_far'' \<mapsto> ''10.1.1.2/32'',
              ''name'' \<mapsto> ''to_r2'', ''name_far'' \<mapsto> ''to_r1'']"
  let ?cB = "[''ip'' \<mapsto> ''10.0.0.1'', ''ip_far'' \<mapsto> ''10.0.0.0'',
              ''systemip'' \<mapsto> ''10.1.1.2/32'', ''systemip_far'' \<mapsto> ''10.1.1.1/32'',
              ''name'' \<mapsto> ''to_r1'', ''name_far'' \<mapsto> ''to_r2'']"
  have p: "linkPairs ex_env (ex_link [''name'' \<mapsto> ''a,b,c'']) ''10.0.0.0'' ''10.0.0.1'' [''name'']
      = (?l, [''r1:e1 <-> r2:e1: name contains 3 elements: a,b,c''])"
    by (simp add: linkPairs_ex defaultName_ex lookup0_def Warnf_def)
  have a: "labelsA ?l [''ip'', ''systemip'', ''name''] Map.empty = Ok ?cA"
    by simp
  have b: "labelsB ?l [''ip'', ''systemip'', ''name''] Map.empty = Ok ?cB"
    by simp
  have na: "lookup0 ?cA ''name'' = ''to_r2''" and nb: "lookup0 ?cB ''name'' = ''to_r1''"
    by (simp_all add: lookup0_def)
  show ?thesis
    unfolding RenderLink_ex [OF p a b] na nb
    by (simp add: scan.simps dropCR_def MaxScanTokenSize_def)
qed

text \<open>
  C3 as stated fails: with the link label \<open>ip = 192.0.2.1/24\<close> both sides are rendered
  with that value under \<open>ip\<close>, not with the addresses \<open>10.0.0.0\<close> and \<open>10.0.0.1\<close>
  that the address assignment returned.
\<close>

theorem linkPairs_ip_label_counterexample:
  "linkIPfromSystemIP ex_env (ex_link [''ip'' \<mapsto> ''192.0.2.1/24'']) = Inr (''10.0.0.0'', ''10.0.0.1'')
   \<and> RenderLink ex_env ex_store (ex_link [''ip'' \<mapsto> ''192.0.2.1/24'']) [''ip'']
        [''ip'', ''systemip'', ''name''] [''ip'', ''systemip'', ''name'']
     = (Ok (\<lparr>TargetNode = Some (ex_node ''r1'' ''10.1.1.1/32''), templateName = ''base-link.tmpl'',
              source = ''r1:e1 <-> r2:e1'',
              templateLabels = [''ip'' \<mapsto> ''192.0.2.1/24'',
                ''systemip'' \<mapsto> ''10.1.1.1/32'', ''systemip_far'' \<mapsto> ''10.1.1.2/32'',
                ''name'' \<mapsto> ''to_r2'', ''name_far'' \<mapsto> ''to_r1''],
              Config = [''interface to_r2'']\<rparr>,
             \<lparr>TargetNode = Some (ex_node ''r2'' ''10.1.1.2/32''), templateName = ''base-link.tmpl'',
              source = ''r1:e1 <-> r2:e1'',
              templateLabels = [''ip'' \<mapsto> ''192.0.2.1/24'',
                ''systemip'' \<mapsto> ''10.1.1.2/32'', ''systemip_far'' \<mapsto> ''10.1.1.1/32'',
                ''name'' \<mapsto> ''to_r1'', ''name_far'' \<mapsto> ''to_r2''],
              Config = [''interface to_r1'']\<rparr>), [])"
proof -
  let ?l = "[''systemip'' \<mapsto> [''10.1.1.1/32'', ''10.1.1.2/32''],
             ''ip'' \<mapsto> [''192.0.2.1/24''],
             ''name'' \<mapsto> [''to_r2'', ''to_r1'']]"
  let ?cA = "[''ip'' \<mapsto> ''192.0.2.1/24'',
              ''systemip'' \<mapsto> ''10.1.1.1/32'', ''systemip_far'' \<mapsto> ''10.1.1.2/32'',
              ''name'' \<mapsto> ''to_r2'', ''name_far'' \<mapsto> ''to_r1'']"
  let ?cB = "[''ip'' \<mapsto> ''192.0.2.1/24'',
              ''systemip'' \<mapsto> ''10.1.1.2/32'', ''systemip_far'' \<mapsto> ''10.1.1.1/32'',
              ''name'' \<mapsto> ''to_r1'', ''name_far'' \<mapsto> ''to_r2'']"
  have p: "linkPairs ex_env (ex_link [''ip'' \<mapsto> ''192.0.2.1/24'']) ''10.0.0.0'' ''10.0.0.1'' [''ip'']
      = (?l, [])"
    by (simp add: linkPairs_ex defaultName_ex lookup0_def)
  have a: "labelsA ?l [''ip'', ''systemip'', ''name''] Map.empty = Ok ?cA"
    by simp
  have b: "labelsB ?l [''ip'', ''systemip'', ''name''] Map.empty = Ok ?cB"
    by simp
  have na: "lookup0 ?cA ''name'' = ''to_r2''" and nb: "lookup0 ?cB ''name'' = ''to_r1''"
    by (simp_all add: lookup0_def)
  show ?thesis
    unfolding RenderLink_ex [OF p a b] na nb
    by (simp add: ex_env_simps scan.simps dropCR_def MaxScanTokenSize_def)
qed

end
